theory Spec2Isabelle
  imports Main "HOL-Library.Word"
begin

unbundle bit_operations_syntax

section \<open>JavaScript values\<close>

text \<open>
  A JavaScript string is a sequence of UTF-16 code units; a Node.js \<open>Buffer\<close> is a
  sequence of bytes. Numbers are restricted to the integral ones, which is all the
  middleware itself ever computes (the results of \<open>&\<close> and \<open>|=\<close>); symbols and big
  integers are left out. An object is the list of its enumerable properties, in the
  order in which \<open>for ... in\<close> visits them. A function value is an opaque identifier;
  what a user-supplied function does when it is called is given by the \<open>runtime\<close>
  record below.
\<close>

type_synonym jsstring = "16 word list"
type_synonym byte = "8 word"

datatype jsval =
    JUndefined
  | JNull
  | JBool bool
  | JNum int
  | JStr jsstring
  | JObject "(jsstring \<times> jsval) list"
  | JFunction nat

text \<open>A string literal of the source, as code units.\<close>

definition js :: "string \<Rightarrow> jsstring" where
  "js s = map of_char s"

text \<open>The \<open>typeof\<close> operator.\<close>

fun typeof :: "jsval \<Rightarrow> string" where
  "typeof JUndefined = ''undefined''"
| "typeof JNull = ''object''"
| "typeof (JBool b) = ''boolean''"
| "typeof (JNum n) = ''number''"
| "typeof (JStr s) = ''string''"
| "typeof (JObject ps) = ''object''"
| "typeof (JFunction f) = ''function''"

text \<open>ToBoolean: what \<open>!!v\<close>, \<open>v || d\<close>, \<open>!v\<close> and \<open>if (v)\<close> test.\<close>

fun truthy :: "jsval \<Rightarrow> bool" where
  "truthy JUndefined = False"
| "truthy JNull = False"
| "truthy (JBool b) = b"
| "truthy (JNum n) = (n \<noteq> 0)"
| "truthy (JStr s) = (s \<noteq> [])"
| "truthy (JObject ps) = True"
| "truthy (JFunction f) = True"

text \<open>
  ToInt32 of a boolean and of an integral number, the values that the variable
  \<open>authorized\<close> of the source takes; it is 0 on \<open>undefined\<close> and \<open>null\<close> too, and
  the source applies it to nothing else.
\<close>

fun to_int32 :: "jsval \<Rightarrow> int" where
  "to_int32 (JBool b) = of_bool b"
| "to_int32 (JNum n) = signed_take_bit 31 n"
| "to_int32 v = 0"

text \<open>Property read \<open>o[k]\<close> and the keys \<open>for (const k in o)\<close> enumerates, in order.\<close>

fun get_prop :: "jsval \<Rightarrow> jsstring \<Rightarrow> jsval" where
  "get_prop (JObject ps) k = (case map_of ps k of Some v \<Rightarrow> v | None \<Rightarrow> JUndefined)"
| "get_prop v k = JUndefined"

fun for_in_keys :: "jsval \<Rightarrow> jsstring list" where
  "for_in_keys (JObject ps) = map fst ps"
| "for_in_keys v = []"

text \<open>Positional parameters: a parameter with no argument is \<open>undefined\<close>.\<close>

definition arg :: "jsval list \<Rightarrow> nat \<Rightarrow> jsval" where
  "arg args i = (if i < length args then args ! i else JUndefined)"

text \<open>
  What can be thrown while a request is processed or a middleware is built: the TypeError
  of \<open>Buffer.byteLength\<close> or of calling a value that is no function, the RangeError of
  \<open>timingSafeEqual\<close>, the AssertionError of \<open>assert\<close> with its message, the error
  that \<open>assert.ifError\<close> raises for the value it was given, and whatever a
  user-supplied authorizer throws.
\<close>

datatype error =
    TypeError
  | RangeError
  | AssertionError string
  | IfError jsval
  | Thrown jsval

section \<open>UTF-8 and buffers\<close>

text \<open>
  \<open>Buffer.byteLength(s)\<close> and \<open>buf.write(s)\<close> encode a string as UTF-8: a surrogate
  pair is one code point of four bytes, a lone surrogate is replaced by U+FFFD.
\<close>

definition is_high_surrogate :: "16 word \<Rightarrow> bool" where
  "is_high_surrogate u = (0xD800 \<le> u \<and> u \<le> 0xDBFF)"

definition is_low_surrogate :: "16 word \<Rightarrow> bool" where
  "is_low_surrogate u = (0xDC00 \<le> u \<and> u \<le> 0xDFFF)"

definition scalar :: "16 word \<Rightarrow> nat" where
  "scalar u = (if is_high_surrogate u \<or> is_low_surrogate u then 0xFFFD else unat u)"

fun code_points :: "jsstring \<Rightarrow> nat list" where
  "code_points [] = []"
| "code_points [u] = [scalar u]"
| "code_points (u # v # us) =
     (if is_high_surrogate u \<and> is_low_surrogate v
      then (0x10000 + (unat u - 0xD800) * 0x400 + (unat v - 0xDC00)) # code_points us
      else scalar u # code_points (v # us))"

definition utf8_encode :: "nat \<Rightarrow> byte list" where
  "utf8_encode c =
     (if c < 0x80 then [of_nat c]
      else if c < 0x800 then [of_nat (0xC0 + c div 0x40), of_nat (0x80 + c mod 0x40)]
      else if c < 0x10000 then
        [of_nat (0xE0 + c div 0x1000), of_nat (0x80 + c div 0x40 mod 0x40),
         of_nat (0x80 + c mod 0x40)]
      else
        [of_nat (0xF0 + c div 0x40000), of_nat (0x80 + c div 0x1000 mod 0x40),
         of_nat (0x80 + c div 0x40 mod 0x40), of_nat (0x80 + c mod 0x40)])"

text \<open>The encoding of each character of a string, and the bytes of the whole string.\<close>

definition utf8_chars :: "jsstring \<Rightarrow> byte list list" where
  "utf8_chars s = map utf8_encode (code_points s)"

definition utf8 :: "jsstring \<Rightarrow> byte list" where
  "utf8 s = concat (utf8_chars s)"

definition byteLength :: "jsstring \<Rightarrow> nat" where
  "byteLength s = length (utf8 s)"

definition Buffer_alloc :: "nat \<Rightarrow> byte \<Rightarrow> byte list" where
  "Buffer_alloc n fill = replicate n fill"

text \<open>
  \<open>buf.write(s)\<close> writes from offset 0 as many whole characters as fit: a character
  whose encoding does not fit in the space left is not written, nor is anything after it.
\<close>

fun written :: "nat \<Rightarrow> byte list list \<Rightarrow> byte list" where
  "written space [] = []"
| "written space (c # cs) =
     (if length c \<le> space then c @ written (space - length c) cs else [])"

definition Buffer_write :: "byte list \<Rightarrow> jsstring \<Rightarrow> byte list" where
  "Buffer_write buf s = (let w = written (length buf) (utf8_chars s) in w @ drop (length w) buf)"

text \<open>\<open>crypto.timingSafeEqual\<close> refuses buffers of different lengths.\<close>

definition timingSafeEqual :: "byte list \<Rightarrow> byte list \<Rightarrow> error + bool" where
  "timingSafeEqual a b = (if length a \<noteq> length b then Inl RangeError else Inr (a = b))"

section \<open>The comparator\<close>

definition userInputBuffer :: "jsstring \<Rightarrow> byte list" where
  "userInputBuffer userInput = Buffer_write (Buffer_alloc (byteLength userInput) 0) userInput"

definition secretBuffer :: "jsstring \<Rightarrow> jsstring \<Rightarrow> byte list" where
  "secretBuffer userInput secret = Buffer_write (Buffer_alloc (byteLength userInput) 0) secret"

text \<open>
  \<open>Buffer.byteLength\<close> throws a TypeError on every argument that is neither a string
  nor a buffer. In \<open>a & b === c\<close> the comparison binds tighter than \<open>&\<close>.
\<close>

fun safeCompare :: "jsval \<Rightarrow> jsval \<Rightarrow> error + bool" where
  "safeCompare (JStr userInput) (JStr secret) =
     (let userInputLength = byteLength userInput;
          secretLength = byteLength secret
      in case timingSafeEqual (userInputBuffer userInput) (secretBuffer userInput secret) of
           Inl e \<Rightarrow> Inl e
         | Inr eq \<Rightarrow>
             Inr ((of_bool eq AND of_bool (userInputLength = secretLength)) \<noteq> (0 :: int)))"
| "safeCompare userInput secret = Inl TypeError"

text \<open>
  A string is well formed when it has no lone surrogate: every high surrogate is followed
  by a low one, and every low one follows a high one. The strings that the header parser
  decodes from bytes are of this kind. The first byte of the encoding of a character
  tells its length.
\<close>

fun well_formed :: "jsstring \<Rightarrow> bool" where
  "well_formed [] = True"
| "well_formed [u] = (\<not> is_high_surrogate u \<and> \<not> is_low_surrogate u)"
| "well_formed (u # v # us) =
     (if is_high_surrogate u \<and> is_low_surrogate v then well_formed us
      else \<not> is_high_surrogate u \<and> \<not> is_low_surrogate u \<and> well_formed (v # us))"

definition lead_length :: "byte \<Rightarrow> nat" where
  "lead_length b = (if b < 0x80 then 1 else if b < 0xE0 then 2 else if b < 0xF0 then 3 else 4)"

section \<open>Configuration\<close>

text \<open>The options object handed to \<open>buildMiddleware\<close>; an absent field is \<open>undefined\<close>.\<close>

record options =
  opt_challenge :: jsval
  opt_users :: jsval
  opt_authorizer :: jsval
  opt_authorizeAsync :: jsval
  opt_passRequest :: jsval
  opt_allowEmptyCredentials :: jsval
  opt_unauthorizedResponse :: jsval
  opt_realm :: jsval

text \<open>
  \<open>ensureFunction\<close> returns a function of the request: a constant one, or the function
  the option holds.
\<close>

datatype producer = Constant jsval | UserFunction nat

fun ensureFunction :: "jsval \<Rightarrow> jsval \<Rightarrow> producer" where
  "ensureFunction JUndefined defaultValue = Constant defaultValue"
| "ensureFunction (JFunction f) defaultValue = UserFunction f"
| "ensureFunction option defaultValue = Constant option"

text \<open>\<open>options.authorizer || staticUsersAuthorizer\<close>: the built-in closure, or the value given.\<close>

datatype authorizer_fn = StaticUsersAuthorizer | Supplied jsval

fun typeof_authorizer :: "authorizer_fn \<Rightarrow> string" where
  "typeof_authorizer StaticUsersAuthorizer = ''function''"
| "typeof_authorizer (Supplied v) = typeof v"

record config =
  challenge :: bool
  users :: jsval
  authorizer :: authorizer_fn
  isAsync :: bool
  passRequest :: bool
  allowEmptyCredentials :: bool
  getResponseBody :: producer
  realm :: producer

definition buildMiddleware :: "options \<Rightarrow> error + config" where
  "buildMiddleware options =
     (let users' = (if truthy (opt_users options) then opt_users options else JObject []);
          authorizer' = (if truthy (opt_authorizer options)
                         then Supplied (opt_authorizer options) else StaticUsersAuthorizer)
      in if typeof users' \<noteq> ''object'' then
           Inl (AssertionError (''Expected an object for the basic auth users, found ''
                                @ typeof users' @ '' instead''))
         else if typeof_authorizer authorizer' \<noteq> ''function'' then
           Inl (AssertionError (''Expected a function for the basic auth authorizer, found ''
                                @ typeof_authorizer authorizer' @ '' instead''))
         else
           Inr \<lparr> challenge = truthy (opt_challenge options),
                 users = users',
                 authorizer = authorizer',
                 isAsync = truthy (opt_authorizeAsync options),
                 passRequest = truthy (opt_passRequest options),
                 allowEmptyCredentials = truthy (opt_allowEmptyCredentials options),
                 getResponseBody = ensureFunction (opt_unauthorizedResponse options) (JStr []),
                 realm = ensureFunction (opt_realm options) JUndefined \<rparr>)"

text \<open>The options object \<open>{}\<close>.\<close>

definition no_options :: options where
  "no_options = \<lparr> opt_challenge = JUndefined, opt_users = JUndefined, opt_authorizer = JUndefined,
     opt_authorizeAsync = JUndefined, opt_passRequest = JUndefined,
     opt_allowEmptyCredentials = JUndefined, opt_unauthorizedResponse = JUndefined,
     opt_realm = JUndefined \<rparr>"

section \<open>The built-in static-table policy\<close>

text \<open>
  The loop of \<open>staticUsersAuthorizer\<close>, over the keys \<open>for ... in\<close> enumerates. Its
  state is the variable \<open>authorized\<close> and, for observation only, the list of the calls of
  \<open>safeCompare\<close> made so far. Both operands of \<open>&\<close> are evaluated; an exception of
  either leaves the loop.
\<close>

type_synonym comparisons = "(jsval \<times> jsval) list"

fun users_loop ::
  "jsval \<Rightarrow> jsval \<Rightarrow> jsval \<Rightarrow> jsstring list \<Rightarrow> jsval \<times> comparisons \<Rightarrow> error + jsval \<times> comparisons"
where
  "users_loop usrs username password [] st = Inr st"
| "users_loop usrs username password (i # keys) (authorized, log) =
     (case safeCompare username (JStr i) of
        Inl e \<Rightarrow> Inl e
      | Inr c1 \<Rightarrow>
          (case safeCompare password (get_prop usrs i) of
             Inl e \<Rightarrow> Inl e
           | Inr c2 \<Rightarrow>
               users_loop usrs username password keys
                 (JNum (to_int32 authorized OR (of_bool c1 AND of_bool c2)),
                  log @ [(username, JStr i), (password, get_prop usrs i)])))"

definition staticUsersAuthorizer :: "jsval \<Rightarrow> jsval list \<Rightarrow> error + jsval \<times> comparisons" where
  "staticUsersAuthorizer usrs args =
     users_loop usrs (arg args 0) (arg args 1) (for_in_keys usrs) (JBool False, [])"

section \<open>The environment of a request\<close>

text \<open>
  What a call of a user-supplied authorizer does: the invocations \<open>(err, approved)\<close> of
  the completion callback it causes, in order, and how the call itself completes. A
  synchronous call is given no callback, and only its completion is looked at.
\<close>

record fn_result =
  cb_calls :: "(jsval \<times> jsval) list"
  completion :: "error + jsval"

text \<open>
  The collaborators of the middleware: the header parser \<open>auth\<close> of the basic-auth
  package (the credentials, or nothing when the header is missing or malformed), the
  user-supplied authorizers (called with the positional arguments, and the callback too
  when the flag is set), the user-supplied functions for the realm and the response
  body (called with the request, and taken to return a value), and the string conversion
  of a template literal on values that are not strings.
\<close>

record runtime =
  auth :: "(jsstring \<times> jsval) list \<Rightarrow> (jsstring \<times> jsstring) option"
  call_authorizer :: "nat \<Rightarrow> jsval list \<Rightarrow> bool \<Rightarrow> fn_result"
  call_producer :: "nat \<Rightarrow> jsval \<Rightarrow> jsval"
  toString :: "jsval \<Rightarrow> jsstring"

text \<open>The calls made on the response object, in order.\<close>

datatype res_call = Set jsstring jsstring | Status nat | Send jsstring | Json jsval

text \<open>
  The state of one request: the properties of the request object, the calls made on the
  response, how often \<open>next\<close> was called, and the calls of the authorizer.
\<close>

record state =
  req :: "(jsstring \<times> jsval) list"
  res_calls :: "res_call list"
  next_calls :: nat
  authorizer_calls :: "(jsval list \<times> bool) list"

text \<open>Property assignment \<open>o.k = v\<close>: in place when the property exists, else added last.\<close>

fun set_prop :: "(jsstring \<times> jsval) list \<Rightarrow> jsstring \<Rightarrow> jsval \<Rightarrow> (jsstring \<times> jsval) list" where
  "set_prop [] k v = [(k, v)]"
| "set_prop ((k', v') # ps) k v = (if k' = k then (k, v) # ps else (k', v') # set_prop ps k v)"

definition res_call :: "res_call \<Rightarrow> state \<Rightarrow> state" where
  "res_call c s = s\<lparr>res_calls := res_calls s @ [c]\<rparr>"

definition call_next :: "state \<Rightarrow> state" where
  "call_next s = s\<lparr>next_calls := next_calls s + 1\<rparr>"

definition apply_producer :: "runtime \<Rightarrow> producer \<Rightarrow> (jsstring \<times> jsval) list \<Rightarrow> jsval" where
  "apply_producer rt p r =
     (case p of Constant v \<Rightarrow> v | UserFunction f \<Rightarrow> call_producer rt f (JObject r))"

text \<open>The conversion \<open>${v}\<close> of a template literal.\<close>

definition template :: "runtime \<Rightarrow> jsval \<Rightarrow> jsstring" where
  "template rt v = (case v of JStr s \<Rightarrow> s | _ \<Rightarrow> toString rt v)"

section \<open>The middleware\<close>

definition challengeString :: "runtime \<Rightarrow> jsval \<Rightarrow> jsstring" where
  "challengeString rt realmName =
     (if truthy realmName
      then js ''Basic realm='' @ [0x22] @ template rt realmName @ [0x22]
      else js ''Basic'')"

text \<open>
  The end of \<open>unauthorized\<close>: \<open>send\<close> for a response of type string, \<open>json\<close> for
  every other one.
\<close>

fun body_call :: "jsval \<Rightarrow> res_call" where
  "body_call (JStr response) = Send response"
| "body_call response = Json response"

definition unauthorized :: "runtime \<Rightarrow> config \<Rightarrow> state \<Rightarrow> state" where
  "unauthorized rt cfg s =
     (let s1 = (if challenge cfg
                then res_call (Set (js ''WWW-Authenticate'')
                                   (challengeString rt (apply_producer rt (realm cfg) (req s)))) s
                else s);
          response = apply_producer rt (getResponseBody cfg) (req s)
      in res_call (body_call response) (res_call (Status 401) s1))"

text \<open>
  \<open>assert.ifError\<close> throws unless the value is \<open>null\<close> or \<open>undefined\<close> (before
  Node.js 10 it threw on every truthy value; an error object is truthy, and neither
  \<open>null\<close> nor \<open>undefined\<close>).
\<close>

definition authorizerCallback ::
  "runtime \<Rightarrow> config \<Rightarrow> jsval \<Rightarrow> jsval \<Rightarrow> state \<Rightarrow> error option \<times> state"
where
  "authorizerCallback rt cfg err approved s =
     (if err \<noteq> JNull \<and> err \<noteq> JUndefined then (Some (IfError err), s)
      else if truthy approved then (None, call_next s)
      else (None, unauthorized rt cfg s))"

text \<open>
  The invocations of the callback that a call of the authorizer causes; an exception of
  the callback is not caught, so it ends them.
\<close>

fun run_callbacks ::
  "runtime \<Rightarrow> config \<Rightarrow> (jsval \<times> jsval) list \<Rightarrow> state \<Rightarrow> error option \<times> state"
where
  "run_callbacks rt cfg [] s = (None, s)"
| "run_callbacks rt cfg ((err, approved) # cbs) s =
     (case authorizerCallback rt cfg err approved s of
        (Some e, s') \<Rightarrow> (Some e, s')
      | (None, s') \<Rightarrow> run_callbacks rt cfg cbs s')"

text \<open>
  The call \<open>authorizer(...)\<close>. The built-in authorizer takes its two parameters from the
  first two arguments and never touches a callback.
\<close>

definition invoke_authorizer :: "runtime \<Rightarrow> config \<Rightarrow> jsval list \<Rightarrow> bool \<Rightarrow> fn_result" where
  "invoke_authorizer rt cfg args with_callback =
     (case authorizer cfg of
        StaticUsersAuthorizer \<Rightarrow>
          \<lparr> cb_calls = [], completion = map_sum id fst (staticUsersAuthorizer (users cfg) args) \<rparr>
      | Supplied (JFunction f) \<Rightarrow> call_authorizer rt f args with_callback
      | Supplied v \<Rightarrow> \<lparr> cb_calls = [], completion = Inl TypeError \<rparr>)"

text \<open>
  The parts of \<open>authMiddleware\<close>: the destructuring of the parser's result, the
  assignment \<open>req.auth = {user: name, password: pass}\<close>, and the argument list of the
  authorizer.
\<close>

definition credentials :: "(jsstring \<times> jsstring) option \<Rightarrow> jsval \<times> jsval" where
  "credentials authentication =
     (case authentication of Some (name, pass) \<Rightarrow> (JStr name, JStr pass) | None \<Rightarrow> (JNull, JNull))"

definition attach_auth :: "jsval \<Rightarrow> jsval \<Rightarrow> state \<Rightarrow> state" where
  "attach_auth name pass s =
     s\<lparr>req := set_prop (req s) (js ''auth'')
                 (JObject [(js ''user'', name), (js ''password'', pass)])\<rparr>"

definition authorizer_args :: "config \<Rightarrow> state \<Rightarrow> jsval \<Rightarrow> jsval \<Rightarrow> jsval list" where
  "authorizer_args cfg s name pass =
     (if passRequest cfg then [JObject (req s), name, pass] else [name, pass])"

text \<open>
  The processing of a request: the exception that ends it, if there is one (thrown out
  of the middleware or, when the authorizer calls back later, out of the callback), and
  the state it leaves. In asynchronous mode the middleware returns what the authorizer
  returns, and the decision is taken by the callback.
\<close>

definition authMiddleware :: "runtime \<Rightarrow> config \<Rightarrow> state \<Rightarrow> error option \<times> state" where
  "authMiddleware rt cfg s =
     (let authentication = auth rt (req s);
          name = fst (credentials authentication);
          pass = snd (credentials authentication)
      in if authentication = None \<and> \<not> allowEmptyCredentials cfg then
           (None, unauthorized rt cfg s)
         else
           let s1 = attach_auth name pass s;
               args = authorizer_args cfg s1 name pass;
               r = invoke_authorizer rt cfg args (isAsync cfg);
               s2 = s1\<lparr>authorizer_calls := authorizer_calls s1 @ [(args, isAsync cfg)]\<rparr>
           in if isAsync cfg then
                (case run_callbacks rt cfg (cb_calls r) s2 of
                   (Some e, s3) \<Rightarrow> (Some e, s3)
                 | (None, s3) \<Rightarrow>
                     (case completion r of Inl e \<Rightarrow> (Some e, s3) | Inr v \<Rightarrow> (None, s3)))
              else
                (case completion r of
                   Inl e \<Rightarrow> (Some e, s2)
                 | Inr v \<Rightarrow>
                     if \<not> truthy v then (None, unauthorized rt cfg s2)
                     else (None, call_next s2)))"

section \<open>The decision, in the words of the specification\<close>

text \<open>
  The specification describes a request by its decision. What the authorizer answers: a
  synchronous one by the value it returns, an asynchronous one by the arguments of its
  completion callback; an exception or an error argument is a fault, and an asynchronous
  authorizer that never calls back leaves the request pending.
\<close>

datatype decision = Allow | Deny | Fault error | Pending

definition authorizer_verdict :: "bool \<Rightarrow> fn_result \<Rightarrow> decision" where
  "authorizer_verdict is_async r =
     (if is_async then
        (case cb_calls r of
           [] \<Rightarrow> (case completion r of Inl e \<Rightarrow> Fault e | Inr v \<Rightarrow> Pending)
         | (err, approved) # cbs \<Rightarrow>
             if err \<noteq> JNull \<and> err \<noteq> JUndefined then Fault (IfError err)
             else if truthy approved then Allow else Deny)
      else
        (case completion r of
           Inl e \<Rightarrow> Fault e
         | Inr v \<Rightarrow> if truthy v then Allow else Deny))"

text \<open>The call of the authorizer that a request leads to, when it leads to one.\<close>

definition authorizer_result :: "runtime \<Rightarrow> config \<Rightarrow> state \<Rightarrow> fn_result" where
  "authorizer_result rt cfg s =
     (let name = fst (credentials (auth rt (req s)));
          pass = snd (credentials (auth rt (req s)))
      in invoke_authorizer rt cfg (authorizer_args cfg (attach_auth name pass s) name pass)
           (isAsync cfg))"

definition spec_decision :: "runtime \<Rightarrow> config \<Rightarrow> state \<Rightarrow> decision" where
  "spec_decision rt cfg s =
     (if auth rt (req s) = None \<and> \<not> allowEmptyCredentials cfg then Deny
      else authorizer_verdict (isAsync cfg) (authorizer_result rt cfg s))"

text \<open>
  The contract of an asynchronous authorizer: it invokes the completion callback exactly
  once.
\<close>

definition callback_contract :: "bool \<Rightarrow> fn_result \<Rightarrow> bool" where
  "callback_contract is_async r = (is_async \<longrightarrow> length (cb_calls r) = 1)"

definition is_string :: "jsval \<Rightarrow> bool" where
  "is_string v = (case v of JStr s \<Rightarrow> True | _ \<Rightarrow> False)"

text \<open>
  The state in which the authorizer is called: the credentials are attached to the
  request and the call is recorded.
\<close>

definition called :: "runtime \<Rightarrow> config \<Rightarrow> state \<Rightarrow> state" where
  "called rt cfg s =
     (let name = fst (credentials (auth rt (req s)));
          pass = snd (credentials (auth rt (req s)));
          s1 = attach_auth name pass s
      in s1\<lparr>authorizer_calls :=
              authorizer_calls s1 @ [(authorizer_args cfg s1 name pass, isAsync cfg)]\<rparr>)"

section \<open>Examples\<close>

text \<open>
  A request with the given properties and nothing done yet, and collaborators for the
  examples: the parser yields the given credentials; function 0 is the authorizer
  \<open>(username, password) => username === null && password === null\<close> of the
  repository's tests, function 1 hands the same answer to the callback, function 2 calls
  back with an error object; every realm or body function returns the string \<open>bla\<close>.
\<close>

definition fresh :: "(jsstring \<times> jsval) list \<Rightarrow> state" where
  "fresh r = \<lparr> req = r, res_calls = [], next_calls = 0, authorizer_calls = [] \<rparr>"

definition emptyCredentials :: "jsval list \<Rightarrow> jsval" where
  "emptyCredentials args = JBool (arg args 0 = JNull \<and> arg args 1 = JNull)"

definition test_runtime :: "(jsstring \<times> jsstring) option \<Rightarrow> runtime" where
  "test_runtime header =
     \<lparr> auth = (\<lambda>r. header),
       call_authorizer = (\<lambda>f args with_callback.
          if f = 0 then \<lparr> cb_calls = [], completion = Inr (emptyCredentials args) \<rparr>
          else if f = 1 then
            \<lparr> cb_calls = [(JNull, emptyCredentials args)], completion = Inr JUndefined \<rparr>
          else
            \<lparr> cb_calls = [(JObject [(js ''message'', JStr (js ''down''))], JUndefined)],
              completion = Inr JUndefined \<rparr>),
       call_producer = (\<lambda>f r. JStr (js ''bla'')),
       toString = (\<lambda>v. js ''[object Object]'') \<rparr>"

text \<open>Configurations: what \<open>buildMiddleware\<close> returns on the options of the examples.\<close>

definition default_config :: config where
  "default_config =
     \<lparr> challenge = False, users = JObject [], authorizer = StaticUsersAuthorizer,
       isAsync = False, passRequest = False, allowEmptyCredentials = False,
       getResponseBody = Constant (JStr []), realm = Constant JUndefined \<rparr>"

text \<open>
  An entry of the users mapping matches a username and a password when the comparator
  holds of both; used to state what the loop computes.
\<close>

definition entry_matches :: "jsval \<Rightarrow> jsstring \<Rightarrow> jsstring \<Rightarrow> jsstring \<Rightarrow> bool" where
  "entry_matches usrs username password k =
     (utf8 username = utf8 k
      \<and> (case get_prop usrs k of JStr p \<Rightarrow> utf8 password = utf8 p | _ \<Rightarrow> False))"

section \<open>Properties of the comparator\<close>

lemma length_written: "length (written space cs) \<le> space"
proof (induction cs arbitrary: space)
  case Nil
  show ?case by simp
next
  case (Cons c cs)
  show ?case
  proof (cases "length c \<le> space")
    case True
    with Cons [of "space - length c"] show ?thesis by simp
  next
    case False
    then show ?thesis by simp
  qed
qed

lemma written_all: "length (concat cs) \<le> space \<Longrightarrow> written space cs = concat cs"
  by (induction cs arbitrary: space) auto

lemma length_Buffer_write: "length (Buffer_write buf s) = length buf"
  using length_written [of "length buf" "utf8_chars s"]
  by (simp add: Buffer_write_def Let_def)

lemma Buffer_write_fits:
  "byteLength s = length buf \<Longrightarrow> Buffer_write buf s = utf8 s"
  by (simp add: Buffer_write_def Let_def byteLength_def utf8_def written_all)

lemma userInputBuffer_utf8: "userInputBuffer a = utf8 a"
  by (simp add: userInputBuffer_def Buffer_alloc_def Buffer_write_fits)

lemma length_secretBuffer: "length (secretBuffer a b) = byteLength a"
  by (simp add: secretBuffer_def Buffer_alloc_def length_Buffer_write)

lemma secretBuffer_same_length:
  "byteLength a = byteLength b \<Longrightarrow> secretBuffer a b = utf8 b"
  by (simp add: secretBuffer_def Buffer_alloc_def Buffer_write_fits)

lemma safeCompare_strings: "safeCompare (JStr a) (JStr b) = Inr (utf8 a = utf8 b)"
proof (cases "byteLength a = byteLength b")
  case True
  then show ?thesis
    by (simp add: timingSafeEqual_def userInputBuffer_utf8 secretBuffer_same_length
        byteLength_def)
next
  case False
  then have "utf8 a \<noteq> utf8 b"
    by (auto simp: byteLength_def)
  with False show ?thesis
    by (simp add: timingSafeEqual_def userInputBuffer_utf8 length_secretBuffer
        byteLength_def [symmetric])
qed

lemma js_x: "js ''x'' = [0x78]"
  by (simp add: js_def)

lemma scalar_plain: "\<not> is_high_surrogate u \<Longrightarrow> \<not> is_low_surrogate u \<Longrightarrow> scalar u = unat u"
  by (simp add: scalar_def)

lemma code_points_snoc:
  "\<not> is_high_surrogate x \<Longrightarrow> \<not> is_low_surrogate x \<Longrightarrow>
   code_points (s @ [x]) = code_points s @ [unat x]"
  by (induction s rule: code_points.induct) (simp_all add: scalar_plain)

lemma utf8_snoc:
  "\<not> is_high_surrogate x \<Longrightarrow> \<not> is_low_surrogate x \<Longrightarrow>
   utf8 (s @ [x]) = utf8 s @ utf8_encode (unat x)"
  by (simp add: utf8_def utf8_chars_def code_points_snoc)

lemma utf8_append_x: "utf8 (s @ js ''x'') = utf8 s @ [0x78]"
proof -
  have "\<not> is_high_surrogate (0x78 :: 16 word)" "\<not> is_low_surrogate (0x78 :: 16 word)"
    by (simp_all add: is_high_surrogate_def is_low_surrogate_def)
  then have "utf8 (s @ [0x78]) = utf8 s @ utf8_encode (unat (0x78 :: 16 word))"
    by (rule utf8_snoc)
  then show ?thesis
    by (simp add: js_x utf8_encode_def)
qed

subsection \<open>UTF-8 is injective on well-formed strings\<close>

lemma byte_of_nat_eq: "m < 256 \<Longrightarrow> n < 256 \<Longrightarrow> (of_nat m :: byte) = of_nat n \<longleftrightarrow> m = n"
  by (simp add: word_of_nat_eq_iff take_bit_eq_mod)

lemma byte_of_nat_less: "m < 256 \<Longrightarrow> n < 256 \<Longrightarrow> (of_nat m :: byte) < of_nat n \<longleftrightarrow> m < n"
  by (simp add: word_less_nat_alt unat_of_nat)

lemma utf8_encode_lead:
  assumes "c < 0x110000"
  shows "utf8_encode c \<noteq> [] \<and> length (utf8_encode c) = lead_length (hd (utf8_encode c))"
proof -
  consider "c < 0x80" | "0x80 \<le> c" "c < 0x800" | "0x800 \<le> c" "c < 0x10000" | "0x10000 \<le> c"
    by linarith
  then show ?thesis
  proof cases
    case 1
    then have "(of_nat c :: byte) < of_nat 0x80"
      by (subst byte_of_nat_less) simp_all
    with 1 show ?thesis by (simp add: utf8_encode_def lead_length_def)
  next
    case 2
    then have "\<not> (of_nat (0xC0 + c div 0x40) :: byte) < of_nat 0x80"
      "(of_nat (0xC0 + c div 0x40) :: byte) < of_nat 0xE0"
      by (subst byte_of_nat_less; simp)+
    with 2 show ?thesis by (simp add: utf8_encode_def lead_length_def)
  next
    case 3
    then have "\<not> (of_nat (0xE0 + c div 0x1000) :: byte) < of_nat 0x80"
      "\<not> (of_nat (0xE0 + c div 0x1000) :: byte) < of_nat 0xE0"
      "(of_nat (0xE0 + c div 0x1000) :: byte) < of_nat 0xF0"
      by (subst byte_of_nat_less; simp)+
    with 3 show ?thesis by (simp add: utf8_encode_def lead_length_def)
  next
    case 4
    with assms have "\<not> (of_nat (0xF0 + c div 0x40000) :: byte) < of_nat 0x80"
      "\<not> (of_nat (0xF0 + c div 0x40000) :: byte) < of_nat 0xE0"
      "\<not> (of_nat (0xF0 + c div 0x40000) :: byte) < of_nat 0xF0"
      by (subst byte_of_nat_less; simp)+
    with 4 show ?thesis by (simp add: utf8_encode_def lead_length_def)
  qed
qed


lemma utf8_encode_length:
  "length (utf8_encode c)
     = (if c < 0x80 then 1 else if c < 0x800 then 2 else if c < 0x10000 then 3 else 4)"
  by (simp add: utf8_encode_def)

lemma div_mod_64_eq:
  fixes c d :: nat
  assumes "c div 64 = d div 64" "c mod 64 = d mod 64"
  shows "c = d"
  using assms by (metis div_mult_mod_eq)

lemma div_64_64: "(c :: nat) div 64 div 64 = c div 4096"
  by (simp add: div_mult2_eq)

lemma div_4096_64: "(c :: nat) div 4096 div 64 = c div 262144"
  by (simp add: div_mult2_eq)

lemma utf8_encode_inj:
  assumes "c < 0x110000" "d < 0x110000" "utf8_encode c = utf8_encode d"
  shows "c = d"
proof -
  have len: "length (utf8_encode c) = length (utf8_encode d)"
    using assms(3) by simp
  have cont: "0x80 + c div 0x1000 mod 0x40 < 256" "0x80 + d div 0x1000 mod 0x40 < 256"
    "0x80 + c div 0x40 mod 0x40 < 256" "0x80 + d div 0x40 mod 0x40 < 256"
    "0x80 + c mod 0x40 < 256" "0x80 + d mod 0x40 < 256"
    by simp_all
  consider "c < 0x80" | "0x80 \<le> c" "c < 0x800" | "0x800 \<le> c" "c < 0x10000" | "0x10000 \<le> c"
    by linarith
  then show ?thesis
  proof cases
    case 1
    with len have d: "d < 0x80"
      by (simp add: utf8_encode_length split: if_splits)
    with 1 assms(3) have bytes: "(of_nat c :: byte) = of_nat d"
      by (simp add: utf8_encode_def)
    from 1 d have "c < 256" "d < 256"
      by simp_all
    with bytes show ?thesis
      by (simp only: byte_of_nat_eq)
  next
    case 2
    with len have d: "0x80 \<le> d" "d < 0x800"
      by (simp_all add: utf8_encode_length split: if_splits)
    with 2 assms(3) have bytes: "(of_nat (0xC0 + c div 0x40) :: byte) = of_nat (0xC0 + d div 0x40)"
      "(of_nat (0x80 + c mod 0x40) :: byte) = of_nat (0x80 + d mod 0x40)"
      by (simp_all add: utf8_encode_def)
    from 2 d have lead: "0xC0 + c div 0x40 < 256" "0xC0 + d div 0x40 < 256"
      by simp_all
    from bytes have "0xC0 + c div 0x40 = 0xC0 + d div 0x40" "0x80 + c mod 0x40 = 0x80 + d mod 0x40"
      using lead cont by (simp_all only: byte_of_nat_eq)
    then have "c div 64 = d div 64" "c mod 64 = d mod 64"
      by simp_all
    then show ?thesis
      by (rule div_mod_64_eq)
  next
    case 3
    with len have d: "0x800 \<le> d" "d < 0x10000"
      by (simp_all add: utf8_encode_length split: if_splits)
    with 3 assms(3) have bytes: "(of_nat (0xE0 + c div 0x1000) :: byte) = of_nat (0xE0 + d div 0x1000)"
      "(of_nat (0x80 + c div 0x40 mod 0x40) :: byte) = of_nat (0x80 + d div 0x40 mod 0x40)"
      "(of_nat (0x80 + c mod 0x40) :: byte) = of_nat (0x80 + d mod 0x40)"
      by (simp_all add: utf8_encode_def)
    from 3 d have lead: "0xE0 + c div 0x1000 < 256" "0xE0 + d div 0x1000 < 256"
      by simp_all
    from bytes have "0xE0 + c div 0x1000 = 0xE0 + d div 0x1000"
      "0x80 + c div 0x40 mod 0x40 = 0x80 + d div 0x40 mod 0x40"
      "0x80 + c mod 0x40 = 0x80 + d mod 0x40"
      using lead cont by (simp_all only: byte_of_nat_eq)
    then have hi: "c div 64 div 64 = d div 64 div 64" and mid: "c div 64 mod 64 = d div 64 mod 64"
      and low: "c mod 64 = d mod 64"
      by (simp_all add: div_64_64)
    from hi mid have "c div 64 = d div 64"
      by (rule div_mod_64_eq)
    then show ?thesis
      using low by (rule div_mod_64_eq)
  next
    case 4
    with len have d: "0x10000 \<le> d"
      by (simp_all add: utf8_encode_length split: if_splits)
    with 4 assms(3) have bytes: "(of_nat (0xF0 + c div 0x40000) :: byte) = of_nat (0xF0 + d div 0x40000)"
      "(of_nat (0x80 + c div 0x1000 mod 0x40) :: byte) = of_nat (0x80 + d div 0x1000 mod 0x40)"
      "(of_nat (0x80 + c div 0x40 mod 0x40) :: byte) = of_nat (0x80 + d div 0x40 mod 0x40)"
      "(of_nat (0x80 + c mod 0x40) :: byte) = of_nat (0x80 + d mod 0x40)"
      by (simp_all add: utf8_encode_def)
    from assms(1,2) have lead: "0xF0 + c div 0x40000 < 256" "0xF0 + d div 0x40000 < 256"
      by simp_all
    from bytes have "0xF0 + c div 0x40000 = 0xF0 + d div 0x40000"
      "0x80 + c div 0x1000 mod 0x40 = 0x80 + d div 0x1000 mod 0x40"
      "0x80 + c div 0x40 mod 0x40 = 0x80 + d div 0x40 mod 0x40"
      "0x80 + c mod 0x40 = 0x80 + d mod 0x40"
      using lead cont by (simp_all only: byte_of_nat_eq)
    then have top: "c div 4096 div 64 = d div 4096 div 64"
      and hi: "c div 4096 mod 64 = d div 4096 mod 64"
      and mid: "c div 64 mod 64 = d div 64 mod 64" and low: "c mod 64 = d mod 64"
      by (simp_all add: div_4096_64)
    from top hi have "c div 4096 = d div 4096"
      by (rule div_mod_64_eq)
    then have "c div 64 div 64 = d div 64 div 64"
      by (simp add: div_64_64)
    then have "c div 64 = d div 64"
      using mid by (rule div_mod_64_eq)
    then show ?thesis
      using low by (rule div_mod_64_eq)
  qed
qed

lemma utf8_encode_append_inj:
  assumes "c < 0x110000" "d < 0x110000" "utf8_encode c @ r = utf8_encode d @ r'"
  shows "c = d \<and> r = r'"
proof -
  from assms(1,2) have c: "utf8_encode c \<noteq> []" "length (utf8_encode c) = lead_length (hd (utf8_encode c))"
    and d: "utf8_encode d \<noteq> []" "length (utf8_encode d) = lead_length (hd (utf8_encode d))"
    by (simp_all add: utf8_encode_lead)
  from c(1) d(1) assms(3) have "hd (utf8_encode c) = hd (utf8_encode d)"
    by (metis hd_append2)
  with c(2) d(2) have "length (utf8_encode c) = length (utf8_encode d)"
    by simp
  with assms(3) have "utf8_encode c = utf8_encode d" "r = r'"
    by simp_all
  with assms(1,2) show ?thesis
    by (simp add: utf8_encode_inj)
qed

lemma concat_utf8_encode_inj:
  assumes "\<forall>c\<in>set cs. c < 0x110000" "\<forall>d\<in>set ds. d < 0x110000"
    and "concat (map utf8_encode cs) = concat (map utf8_encode ds)"
  shows "cs = ds"
  using assms
proof (induction cs arbitrary: ds)
  case Nil
  show ?case
  proof (cases ds)
    case Nil
    then show ?thesis by simp
  next
    case (Cons d ds')
    with Nil.prems have "utf8_encode d = []" by simp
    moreover from Cons Nil.prems have "utf8_encode d \<noteq> []" by (simp add: utf8_encode_lead)
    ultimately show ?thesis by simp
  qed
next
  case (Cons c cs)
  show ?case
  proof (cases ds)
    case Nil
    with Cons.prems have "utf8_encode c = []" by simp
    moreover from Cons.prems have "utf8_encode c \<noteq> []" by (simp add: utf8_encode_lead)
    ultimately show ?thesis by simp
  next
    case (Cons d ds')
    with Cons.prems have "utf8_encode c @ concat (map utf8_encode cs)
        = utf8_encode d @ concat (map utf8_encode ds')" "c < 0x110000" "d < 0x110000"
      by simp_all
    then have "c = d" "concat (map utf8_encode cs) = concat (map utf8_encode ds')"
      using utf8_encode_append_inj by blast+
    with Cons.IH [of ds'] Cons.prems Cons show ?thesis
      by simp
  qed
qed


lemma high_surrogate_nat: "is_high_surrogate u \<longleftrightarrow> 0xD800 \<le> unat u \<and> unat u \<le> 0xDBFF"
  by (simp add: is_high_surrogate_def word_le_nat_alt)

lemma low_surrogate_nat: "is_low_surrogate u \<longleftrightarrow> 0xDC00 \<le> unat u \<and> unat u \<le> 0xDFFF"
  by (simp add: is_low_surrogate_def word_le_nat_alt)

lemma unat_code_unit: "unat (u :: 16 word) < 0x10000"
  using unsigned_less [of u, where ?'a = nat] by simp

lemma scalar_bound: "scalar u < 0x10000"
  using unat_code_unit [of u] by (simp add: scalar_def)

lemma pair_bounds:
  assumes "is_high_surrogate u" "is_low_surrogate v"
  shows "0x10000 \<le> 0x10000 + (unat u - 0xD800) * 0x400 + (unat v - 0xDC00)"
    and "0x10000 + (unat u - 0xD800) * 0x400 + (unat v - 0xDC00) < 0x110000"
proof -
  from assms have "unat u - 0xD800 \<le> 0x3FF" "unat v - 0xDC00 \<le> 0x3FF"
    by (auto simp add: high_surrogate_nat low_surrogate_nat)
  then have "(unat u - 0xD800) * 0x400 \<le> 0x3FF * 0x400" "unat v - 0xDC00 \<le> 0x3FF"
    by simp_all
  then show "0x10000 + (unat u - 0xD800) * 0x400 + (unat v - 0xDC00) < 0x110000"
    by linarith
qed simp

lemma pair_split:
  fixes x y x' y' :: nat
  assumes "y < 1024" "y' < 1024" "x * 1024 + y = x' * 1024 + y'"
  shows "x = x' \<and> y = y'"
proof -
  from assms(3) have "(x * 1024 + y) div 1024 = (x' * 1024 + y') div 1024"
    "(x * 1024 + y) mod 1024 = (x' * 1024 + y') mod 1024"
    by simp_all
  with assms(1,2) show ?thesis
    by simp
qed

lemma pair_inj:
  assumes "is_high_surrogate u" "is_low_surrogate v" "is_high_surrogate u'" "is_low_surrogate v'"
    and "0x10000 + (unat u - 0xD800) * 0x400 + (unat v - 0xDC00)
       = 0x10000 + (unat u' - 0xD800) * 0x400 + (unat v' - 0xDC00)"
  shows "u = u' \<and> v = v'"
proof -
  from assms(2,4) have "unat v - 0xDC00 < 1024" "unat v' - 0xDC00 < 1024"
    by (auto simp add: low_surrogate_nat)
  moreover from assms(5)
  have "(unat u - 0xD800) * 1024 + (unat v - 0xDC00) = (unat u' - 0xD800) * 1024 + (unat v' - 0xDC00)"
    by simp
  ultimately have "unat u - 0xD800 = unat u' - 0xD800 \<and> unat v - 0xDC00 = unat v' - 0xDC00"
    by (rule pair_split)
  with assms(1-4) have "unat u = unat u' \<and> unat v = unat v'"
    by (auto simp add: high_surrogate_nat low_surrogate_nat)
  then show ?thesis
    by (simp add: word_unat_eq_iff)
qed

lemma code_points_bound: "\<forall>c\<in>set (code_points s). c < 0x110000"
proof (induction s rule: code_points.induct)
  case 1
  show ?case by simp
next
  case (2 u)
  show ?case using scalar_bound [of u] by simp
next
  case (3 u v us)
  then show ?case
    using scalar_bound [of u] pair_bounds(2) [of u v] by auto
qed

lemma code_points_Nil: "code_points s = [] \<longleftrightarrow> s = []"
  by (cases s rule: code_points.cases) simp_all


lemma code_points_head:
  assumes "well_formed (u # us)"
  shows "(\<not> is_high_surrogate u \<and> \<not> is_low_surrogate u \<and> well_formed us
            \<and> code_points (u # us) = unat u # code_points us)
         \<or> (\<exists>v rest. us = v # rest \<and> is_high_surrogate u \<and> is_low_surrogate v \<and> well_formed rest
            \<and> code_points (u # us)
                = (0x10000 + (unat u - 0xD800) * 0x400 + (unat v - 0xDC00)) # code_points rest)"
proof (cases us)
  case Nil
  with assms show ?thesis
    by (simp add: scalar_def)
next
  case (Cons v rest)
  with assms show ?thesis
    by (cases "is_high_surrogate u \<and> is_low_surrogate v") (auto simp add: scalar_def)
qed

lemma code_points_inj:
  "well_formed a \<Longrightarrow> well_formed b \<Longrightarrow> code_points a = code_points b \<Longrightarrow> a = b"
proof (induction a arbitrary: b rule: length_induct)
  case (1 a)
  show ?case
  proof (cases a)
    case Nil
    with "1.prems" show ?thesis
      by (metis code_points.simps(1) code_points_Nil)
  next
    case (Cons u us)
    with "1.prems" obtain u' us' where b: "b = u' # us'"
      by (cases b) (simp_all add: code_points_Nil)
    note a = code_points_head [of u us] and b' = code_points_head [of u' us']
    from "1.prems" Cons b have wf: "well_formed (u # us)" "well_formed (u' # us')"
      and eq: "code_points (u # us) = code_points (u' # us')"
      by simp_all
    consider (single) "\<not> is_high_surrogate u" "\<not> is_low_surrogate u" "well_formed us"
        "code_points (u # us) = unat u # code_points us"
      | (pair) v rest where "us = v # rest" "is_high_surrogate u" "is_low_surrogate v"
        "well_formed rest"
        "code_points (u # us)
           = (0x10000 + (unat u - 0xD800) * 0x400 + (unat v - 0xDC00)) # code_points rest"
      using a [OF wf(1)] by blast
    then show ?thesis
    proof cases
      case single
      consider (single') "\<not> is_high_surrogate u'" "\<not> is_low_surrogate u'" "well_formed us'"
          "code_points (u' # us') = unat u' # code_points us'"
        | (pair') v' rest' where "us' = v' # rest'" "is_high_surrogate u'" "is_low_surrogate v'"
          "well_formed rest'"
          "code_points (u' # us')
             = (0x10000 + (unat u' - 0xD800) * 0x400 + (unat v' - 0xDC00)) # code_points rest'"
        using b' [OF wf(2)] by blast
      then show ?thesis
      proof cases
        case single'
        with single eq have "unat u = unat u'" "code_points us = code_points us'"
          by simp_all
        moreover have "length us < length a"
          using Cons by simp
        ultimately have "u = u'" "us = us'"
          using "1.IH" single(3) single'(3) by (simp_all add: word_unat_eq_iff)
        with Cons b show ?thesis by simp
      next
        case pair'
        with single eq have "unat u = 0x10000 + (unat u' - 0xD800) * 0x400 + (unat v' - 0xDC00)"
          by simp
        with unat_code_unit [of u] show ?thesis
          by simp
      qed
    next
      case pair
      consider (single') "\<not> is_high_surrogate u'" "\<not> is_low_surrogate u'" "well_formed us'"
          "code_points (u' # us') = unat u' # code_points us'"
        | (pair') v' rest' where "us' = v' # rest'" "is_high_surrogate u'" "is_low_surrogate v'"
          "well_formed rest'"
          "code_points (u' # us')
             = (0x10000 + (unat u' - 0xD800) * 0x400 + (unat v' - 0xDC00)) # code_points rest'"
        using b' [OF wf(2)] by blast
      then show ?thesis
      proof cases
        case single'
        with pair eq have "unat u' = 0x10000 + (unat u - 0xD800) * 0x400 + (unat v - 0xDC00)"
          by simp
        with unat_code_unit [of u'] show ?thesis
          by simp
      next
        case pair'
        with pair eq have "0x10000 + (unat u - 0xD800) * 0x400 + (unat v - 0xDC00)
            = 0x10000 + (unat u' - 0xD800) * 0x400 + (unat v' - 0xDC00)"
          and rest: "code_points rest = code_points rest'"
          by simp_all
        with pair(2,3) pair'(2,3) have "u = u' \<and> v = v'"
          by (intro pair_inj)
        moreover have "length rest < length a"
          using Cons pair(1) by simp
        then have "rest = rest'"
          using "1.IH" pair(4) pair'(4) rest by simp
        ultimately show ?thesis
          using Cons b pair(1) pair'(1) by simp
      qed
    qed
  qed
qed

lemma utf8_inj:
  assumes "well_formed a" "well_formed b" "utf8 a = utf8 b"
  shows "a = b"
proof -
  from assms(3) have "concat (map utf8_encode (code_points a)) = concat (map utf8_encode (code_points b))"
    by (simp add: utf8_def utf8_chars_def)
  then have "code_points a = code_points b"
    using code_points_bound [of a] code_points_bound [of b] by (intro concat_utf8_encode_inj)
  with assms(1,2) show ?thesis
    by (rule code_points_inj)
qed

lemma lone_surrogate_bytes: "utf8 [0xD800] = utf8 [0xFFFD] \<and> \<not> well_formed [0xD800]"
  by (simp add: utf8_def utf8_chars_def scalar_def is_high_surrogate_def is_low_surrogate_def)

subsection \<open>The comparator decides equality\<close>

text \<open>
  Claim C1. For all strings \<open>a\<close> and \<open>b\<close>, empty and non-ASCII ones included,
  \<open>safeCompare(a, b)\<close> returns (it does not throw), and it returns true exactly when the
  UTF-8 bytes of \<open>a\<close> and of \<open>b\<close> are equal. So \<open>safeCompare(s, s)\<close> is true,
  \<open>safeCompare(s, s + "x")\<close> is false, and the result is the conjunction of the byte-wise
  check of the two buffers and the equality of the two byte lengths. For well-formed
  strings, equal bytes mean equal strings.
\<close>

theorem safeCompare_bytes_equal:
  "safeCompare (JStr a) (JStr b) = Inr (utf8 a = utf8 b)
   \<and> safeCompare (JStr s) (JStr s) = Inr True
   \<and> safeCompare (JStr s) (JStr (s @ js ''x'')) = Inr False
   \<and> safeCompare (JStr a) (JStr b)
       = Inr (timingSafeEqual (userInputBuffer a) (secretBuffer a b) = Inr True
              \<and> byteLength a = byteLength b)
   \<and> (well_formed a \<and> well_formed b \<longrightarrow> safeCompare (JStr a) (JStr b) = Inr (a = b))"
proof -
  have "timingSafeEqual (userInputBuffer a) (secretBuffer a b) = Inr True
          \<and> byteLength a = byteLength b
        \<longleftrightarrow> utf8 a = utf8 b"
    by (auto simp: timingSafeEqual_def userInputBuffer_utf8 secretBuffer_same_length
        byteLength_def)
  moreover have "utf8 a = utf8 b \<longleftrightarrow> a = b" if "well_formed a" "well_formed b"
    using that utf8_inj by blast
  ultimately show ?thesis
    by (simp add: safeCompare_strings utf8_append_x del: safeCompare.simps)
qed

text \<open>
  The same at a string with an accented letter and a surrogate pair, and at the empty
  string.
\<close>

theorem safeCompare_bytes_equal_witness:
  "safeCompare (JStr [0x61, 0xE9, 0xD83D, 0xDE00]) (JStr [0x61, 0xE9, 0xD83D, 0xDE00]) = Inr True
   \<and> safeCompare (JStr []) (JStr []) = Inr True
   \<and> safeCompare (JStr [0x61, 0xE9]) (JStr ([0x61, 0xE9] @ js ''x'')) = Inr False
   \<and> safeCompare (JStr [0x61, 0xE9, 0xD83D, 0xDE00]) (JStr [0x61, 0xD83D, 0xDE00, 0xE9]) = Inr False"
proof -
  let ?a = "[0x61, 0xE9, 0xD83D, 0xDE00] :: jsstring"
  let ?b = "[0x61, 0xD83D, 0xDE00, 0xE9] :: jsstring"
  have wf: "well_formed ?a \<and> well_formed ?b"
    by (simp add: is_high_surrogate_def is_low_surrogate_def)
  have "safeCompare (JStr ?a) (JStr ?a) = Inr True"
    using safeCompare_bytes_equal [of ?a ?a ?a] by blast
  moreover have "safeCompare (JStr []) (JStr []) = Inr True"
    using safeCompare_bytes_equal [of "[]" "[]" "[]"] by blast
  moreover have "safeCompare (JStr [0x61, 0xE9]) (JStr ([0x61, 0xE9] @ js ''x'')) = Inr False"
    using safeCompare_bytes_equal [of ?a ?a "[0x61, 0xE9]"] by blast
  moreover have "safeCompare (JStr ?a) (JStr ?b) = Inr (?a = ?b)"
    using safeCompare_bytes_equal [of ?a ?b ?a] wf by blast
  then have "safeCompare (JStr ?a) (JStr ?b) = Inr False"
    by simp
  ultimately show ?thesis
    by blast
qed

text \<open>
  A lone surrogate is written as U+FFFD, so two different strings that are not well
  formed can have the same bytes.
\<close>

lemma safeCompare_lone_surrogate: "safeCompare (JStr [0xD800]) (JStr [0xFFFD]) = Inr True"
  using lone_surrogate_bytes by (simp add: safeCompare_strings del: safeCompare.simps)

subsection \<open>The two buffers\<close>

lemma written_whole_chars:
  "\<exists>n\<le>length cs. written space cs = concat (take n cs)
      \<and> (n < length cs \<longrightarrow> space < length (concat (take (Suc n) cs)))"
proof (induction cs arbitrary: space)
  case Nil
  show ?case by simp
next
  case (Cons c cs)
  show ?case
  proof (cases "length c \<le> space")
    case True
    from Cons [of "space - length c"] obtain n where n: "n \<le> length cs"
      "written (space - length c) cs = concat (take n cs)"
      "n < length cs \<longrightarrow> space - length c < length (concat (take (Suc n) cs))"
      by blast
    with True have "Suc n \<le> length (c # cs) \<and> written space (c # cs) = concat (take (Suc n) (c # cs))
      \<and> (Suc n < length (c # cs) \<longrightarrow> space < length (concat (take (Suc (Suc n)) (c # cs))))"
      by auto
    then show ?thesis by blast
  next
    case False
    then have "0 \<le> length (c # cs) \<and> written space (c # cs) = concat (take 0 (c # cs))
      \<and> (0 < length (c # cs) \<longrightarrow> space < length (concat (take (Suc 0) (c # cs))))"
      by simp
    then show ?thesis by blast
  qed
qed

lemma written_boundary:
  "length (concat (take m cs)) = space \<Longrightarrow> written space cs = concat (take m cs)"
proof (induction cs arbitrary: space m)
  case Nil
  then show ?case by simp
next
  case (Cons c cs)
  show ?case
  proof (cases m)
    case 0
    with Cons.prems have "space = 0" by simp
    moreover have "length (written 0 cs) \<le> 0" by (rule length_written)
    ultimately show ?thesis using 0 by simp
  next
    case (Suc k)
    with Cons.prems have "length c \<le> space" "length (concat (take k cs)) = space - length c"
      by auto
    with Cons.IH [of k "space - length c"] Suc show ?thesis by simp
  qed
qed

lemma secretBuffer_written:
  "secretBuffer a b = written (byteLength a) (utf8_chars b)
     @ replicate (byteLength a - length (written (byteLength a) (utf8_chars b))) 0"
  by (simp add: secretBuffer_def Buffer_write_def Buffer_alloc_def Let_def)

lemma secretBuffer_padded:
  assumes "byteLength b \<le> byteLength a"
  shows "secretBuffer a b = utf8 b @ replicate (byteLength a - byteLength b) 0"
proof -
  from assms have "written (byteLength a) (utf8_chars b) = utf8 b"
    by (simp add: written_all byteLength_def utf8_def)
  then show ?thesis
    by (simp add: secretBuffer_written byteLength_def)
qed

lemma secretBuffer_cut:
  assumes "length (concat (take m (utf8_chars b))) = byteLength a"
  shows "secretBuffer a b = take (byteLength a) (utf8 b)"
proof -
  have w: "written (byteLength a) (utf8_chars b) = concat (take m (utf8_chars b))"
    using assms by (rule written_boundary)
  have "utf8 b = concat (take m (utf8_chars b)) @ concat (drop m (utf8_chars b))"
    unfolding utf8_def by (simp flip: concat_append)
  then have "take (byteLength a) (utf8 b) = concat (take m (utf8_chars b))"
    using assms by simp
  with w assms show ?thesis
    by (simp add: secretBuffer_written)
qed

lemma utf8_chars_a_eacute: "utf8_chars [0x61, 0xE9] = [[0x61], [0xC3, 0xA9]]"
  by (simp add: utf8_chars_def utf8_encode_def scalar_def is_high_surrogate_def is_low_surrogate_def)

lemma utf8_chars_ab: "utf8_chars (js ''ab'') = [[0x61], [0x62]]"
  by (simp add: js_def utf8_chars_def utf8_encode_def scalar_def is_high_surrogate_def is_low_surrogate_def)

lemma utf8_chars_a: "utf8_chars [0x61] = [[0x61]]"
  by (simp add: utf8_chars_def utf8_encode_def scalar_def is_high_surrogate_def
      is_low_surrogate_def)

text \<open>
  Claim C3, as amended. For all strings \<open>a\<close> and \<open>b\<close>, both buffers that
  \<open>safeCompare(a, b)\<close> compares have the byte length of \<open>a\<close>, whatever \<open>b\<close> is. The
  first holds the bytes of \<open>a\<close>. The second holds the bytes of the longest run of whole
  characters of \<open>b\<close> that fits in that length, followed by zero bytes: all the bytes of
  \<open>b\<close>, zero-padded, when \<open>b\<close> is not longer than \<open>a\<close>, and the first bytes of \<open>b\<close>
  up to that length when the length falls on a boundary between two characters of \<open>b\<close>.
  The lengths of the two buffers depend on the byte length of \<open>a\<close> only.
\<close>

theorem comparison_buffers:
  "length (userInputBuffer a) = byteLength a
   \<and> length (secretBuffer a b) = byteLength a
   \<and> userInputBuffer a = utf8 a
   \<and> (\<exists>n\<le>length (utf8_chars b).
         secretBuffer a b = concat (take n (utf8_chars b))
            @ replicate (byteLength a - length (concat (take n (utf8_chars b)))) 0
         \<and> length (concat (take n (utf8_chars b))) \<le> byteLength a
         \<and> (n < length (utf8_chars b) \<longrightarrow>
              byteLength a < length (concat (take (Suc n) (utf8_chars b)))))
   \<and> (byteLength b \<le> byteLength a \<longrightarrow>
        secretBuffer a b = utf8 b @ replicate (byteLength a - byteLength b) 0)
   \<and> ((\<exists>m. length (concat (take m (utf8_chars b))) = byteLength a) \<longrightarrow>
        secretBuffer a b = take (byteLength a) (utf8 b))
   \<and> (byteLength a = byteLength a' \<longrightarrow>
        length (userInputBuffer a) = length (userInputBuffer a')
        \<and> length (secretBuffer a b) = length (secretBuffer a' b'))"
proof -
  obtain n where n: "n \<le> length (utf8_chars b)"
    "written (byteLength a) (utf8_chars b) = concat (take n (utf8_chars b))"
    "n < length (utf8_chars b) \<longrightarrow> byteLength a < length (concat (take (Suc n) (utf8_chars b)))"
    using written_whole_chars [of "utf8_chars b" "byteLength a"] by blast
  have le: "length (concat (take n (utf8_chars b))) \<le> byteLength a"
    using length_written [of "byteLength a" "utf8_chars b"] n(2) by simp
  have ex: "\<exists>n\<le>length (utf8_chars b).
         secretBuffer a b = concat (take n (utf8_chars b))
            @ replicate (byteLength a - length (concat (take n (utf8_chars b)))) 0
         \<and> length (concat (take n (utf8_chars b))) \<le> byteLength a
         \<and> (n < length (utf8_chars b) \<longrightarrow>
              byteLength a < length (concat (take (Suc n) (utf8_chars b))))"
    using n le secretBuffer_written [of a b] by auto
  have len: "length (userInputBuffer a) = byteLength a" "userInputBuffer a = utf8 a"
    by (simp_all add: userInputBuffer_utf8 byteLength_def)
  have two: "byteLength a = byteLength a' \<longrightarrow>
        length (userInputBuffer a) = length (userInputBuffer a')
        \<and> length (secretBuffer a b) = length (secretBuffer a' b')"
    by (simp add: userInputBuffer_utf8 length_secretBuffer byteLength_def)
  show ?thesis
    using ex len two length_secretBuffer [of a b] secretBuffer_padded [of b a]
      secretBuffer_cut [of _ b a]
    by blast
qed

theorem comparison_buffers_witness:
  "length (secretBuffer (js ''ab'') [0x61, 0xE9]) = 2
   \<and> secretBuffer (js ''ab'') [0x61] = [0x61, 0]
   \<and> secretBuffer [0x61] (js ''ab'') = [0x61]"
proof -
  have len: "byteLength (js ''ab'') = 2" "byteLength [0x61] = 1"
    by (simp_all add: byteLength_def utf8_def utf8_chars_ab utf8_chars_a)
  have "length (secretBuffer (js ''ab'') [0x61, 0xE9]) = byteLength (js ''ab'')"
    using comparison_buffers [of "js ''ab''" "[0x61, 0xE9]"] by blast
  moreover have "secretBuffer (js ''ab'') [0x61]
      = utf8 [0x61] @ replicate (byteLength (js ''ab'') - byteLength [0x61]) 0"
    using comparison_buffers [of "js ''ab''" "[0x61]"] len by simp
  moreover have "length (concat (take 1 (utf8_chars (js ''ab'')))) = byteLength [0x61]"
    by (simp add: len utf8_chars_ab)
  then have "secretBuffer [0x61] (js ''ab'') = take (byteLength [0x61]) (utf8 (js ''ab''))"
    using comparison_buffers [of "[0x61]" "js ''ab''"] by blast
  ultimately show ?thesis
    by (simp add: len utf8_def utf8_chars_ab utf8_chars_a)
qed

text \<open>
  Claim C3 as stated says that the bytes of \<open>b\<close> are cut at the byte length of \<open>a\<close>.
  With \<open>a = "ab"\<close> (two bytes) and \<open>b\<close> the letter a followed by e-acute (three
  bytes, 61 C3 A9), the second character of \<open>b\<close> does not fit in the byte that is left,
  and \<open>write\<close> leaves that byte zero: the buffer is 61 00, not 61 C3.
\<close>

theorem truncation_counterexample:
  "byteLength (js ''ab'') = 2
   \<and> byteLength [0x61, 0xE9] = 3
   \<and> secretBuffer (js ''ab'') [0x61, 0xE9] = [0x61, 0]
   \<and> take (byteLength (js ''ab'')) (utf8 [0x61, 0xE9]) = [0x61, 0xC3]"
  by (simp add: secretBuffer_written byteLength_def utf8_def utf8_chars_a_eacute utf8_chars_ab)

section \<open>Properties of the static-table policy\<close>

lemma of_bool_and_int: "(of_bool a :: int) AND of_bool b = of_bool (a \<and> b)"
  by (cases a; cases b) simp_all

lemma of_bool_or_int: "(of_bool a :: int) OR of_bool b = of_bool (a \<or> b)"
  by (cases a; cases b) simp_all

lemma signed_take_bit_of_bool: "signed_take_bit 31 (of_bool a :: int) = of_bool a"
  by (cases a) simp_all

lemma is_string_iff: "is_string v \<longleftrightarrow> (\<exists>s. v = JStr s)"
  by (cases v) (simp_all add: is_string_def)

lemma entry_matches_iff:
  "entry_matches usrs username password k
   \<longleftrightarrow> utf8 username = utf8 k \<and> (\<exists>p. get_prop usrs k = JStr p \<and> utf8 password = utf8 p)"
  by (cases "get_prop usrs k") (simp_all add: entry_matches_def)

lemma users_loop_strings:
  assumes "\<forall>k\<in>set keys. is_string (get_prop usrs k)" and "to_int32 authorized = of_bool m"
  shows "users_loop usrs (JStr username) (JStr password) keys (authorized, log)
    = Inr (if keys = [] then authorized
           else JNum (of_bool (m \<or> (\<exists>k\<in>set keys. entry_matches usrs username password k))),
           log @ concat (map (\<lambda>k. [(JStr username, JStr k), (JStr password, get_prop usrs k)]) keys))"
  using assms
proof (induction keys arbitrary: authorized m log)
  case Nil
  show ?case by simp
next
  case (Cons i keys)
  from Cons.prems(1) obtain p where p: "get_prop usrs i = JStr p"
    by (auto simp: is_string_iff)
  let ?m = "m \<or> (utf8 username = utf8 i \<and> utf8 password = utf8 p)"
  have step: "users_loop usrs (JStr username) (JStr password) (i # keys) (authorized, log)
    = users_loop usrs (JStr username) (JStr password) keys
        (JNum (of_bool ?m), log @ [(JStr username, JStr i), (JStr password, JStr p)])"
    using Cons.prems(2)
    by (simp add: p safeCompare_strings of_bool_and_int of_bool_or_int del: safeCompare.simps)
  have m: "?m \<longleftrightarrow> m \<or> entry_matches usrs username password i"
    by (simp add: entry_matches_iff p)
  have "to_int32 (JNum (of_bool ?m)) = of_bool ?m"
    by (simp only: to_int32.simps signed_take_bit_of_bool)
  with Cons.IH [of "JNum (of_bool ?m)" ?m] Cons.prems(1)
  have "users_loop usrs (JStr username) (JStr password) keys
        (JNum (of_bool ?m), log @ [(JStr username, JStr i), (JStr password, JStr p)])
    = Inr (if keys = [] then JNum (of_bool ?m)
           else JNum (of_bool (?m \<or> (\<exists>k\<in>set keys. entry_matches usrs username password k))),
           (log @ [(JStr username, JStr i), (JStr password, JStr p)])
             @ concat (map (\<lambda>k. [(JStr username, JStr k), (JStr password, get_prop usrs k)]) keys))"
    by simp
  with step m show ?case
    by (auto simp: p)
qed

lemma table_entry_matches:
  "(\<exists>k\<in>set (map fst table). entry_matches (JObject table) username password k)
   \<longleftrightarrow> (\<exists>k p. map_of table k = Some (JStr p) \<and> utf8 username = utf8 k \<and> utf8 password = utf8 p)"
proof
  assume "\<exists>k\<in>set (map fst table). entry_matches (JObject table) username password k"
  then obtain k p where "get_prop (JObject table) k = JStr p" "utf8 username = utf8 k"
    "utf8 password = utf8 p"
    by (auto simp: entry_matches_iff)
  moreover from this have "map_of table k = Some (JStr p)"
    by (auto split: option.splits)
  ultimately show "\<exists>k p. map_of table k = Some (JStr p) \<and> utf8 username = utf8 k \<and> utf8 password = utf8 p"
    by blast
next
  assume "\<exists>k p. map_of table k = Some (JStr p) \<and> utf8 username = utf8 k \<and> utf8 password = utf8 p"
  then obtain k p where kp: "map_of table k = Some (JStr p)" "utf8 username = utf8 k"
    "utf8 password = utf8 p"
    by blast
  then have "k \<in> set (map fst table)"
    by (auto dest: map_of_SomeD intro: rev_image_eqI)
  moreover have "entry_matches (JObject table) username password k"
    using kp by (simp add: entry_matches_iff)
  ultimately show "\<exists>k\<in>set (map fst table). entry_matches (JObject table) username password k"
    by blast
qed

lemma exact_entry:
  assumes "well_formed username" "well_formed password"
    and "\<forall>(k, v)\<in>set table. well_formed k \<and> (\<forall>p. v = JStr p \<longrightarrow> well_formed p)"
  shows "(\<exists>k p. map_of table k = Some (JStr p) \<and> utf8 username = utf8 k \<and> utf8 password = utf8 p)
         \<longleftrightarrow> map_of table username = Some (JStr password)"
proof
  assume "\<exists>k p. map_of table k = Some (JStr p) \<and> utf8 username = utf8 k \<and> utf8 password = utf8 p"
  then obtain k p where kp: "map_of table k = Some (JStr p)" "utf8 username = utf8 k"
    "utf8 password = utf8 p"
    by blast
  then have "(k, JStr p) \<in> set table"
    by (simp add: map_of_SomeD)
  with assms(3) have "well_formed k" "well_formed p"
    by auto
  with assms(1,2) kp(2,3) have "username = k" "password = p"
    by (simp_all add: utf8_inj)
  with kp(1) show "map_of table username = Some (JStr password)"
    by simp
next
  assume "map_of table username = Some (JStr password)"
  then show "\<exists>k p. map_of table k = Some (JStr p) \<and> utf8 username = utf8 k \<and> utf8 password = utf8 p"
    by blast
qed

text \<open>
  Claim C2. For every username and password that are strings, and every users mapping
  whose passwords are strings, the built-in policy returns (it does not throw), and its
  result is truthy exactly when some entry of the mapping has a username and a password
  whose bytes equal those given: a prefix of a stored password is denied, and the empty
  mapping denies everything (the result is still \<open>false\<close>). The comparator is called
  on the username and on the password of every entry, in the order of the mapping,
  whatever the earlier entries gave, and the results are accumulated with \<open>|=\<close>:
  the result is the number 1 or 0. When the strings are well formed, the result is truthy
  exactly when the mapping holds the given password under the given username.
\<close>

theorem static_table_policy:
  assumes "\<forall>v\<in>snd ` set table. is_string v"
  shows "staticUsersAuthorizer (JObject table) [JStr username, JStr password]
    = Inr (if table = [] then JBool False
           else JNum (of_bool (\<exists>k p. map_of table k = Some (JStr p)
                                 \<and> utf8 username = utf8 k \<and> utf8 password = utf8 p)),
           concat (map (\<lambda>k. [(JStr username, JStr k), (JStr password, get_prop (JObject table) k)])
                    (map fst table)))
    \<and> (truthy (if table = [] then JBool False
               else JNum (of_bool (\<exists>k p. map_of table k = Some (JStr p)
                                 \<and> utf8 username = utf8 k \<and> utf8 password = utf8 p)))
       \<longleftrightarrow> (\<exists>k p. map_of table k = Some (JStr p)
                  \<and> utf8 username = utf8 k \<and> utf8 password = utf8 p))
    \<and> (well_formed username \<and> well_formed password
        \<and> (\<forall>(k, v)\<in>set table. well_formed k \<and> (\<forall>p. v = JStr p \<longrightarrow> well_formed p)) \<longrightarrow>
          ((\<exists>k p. map_of table k = Some (JStr p)
                  \<and> utf8 username = utf8 k \<and> utf8 password = utf8 p)
           \<longleftrightarrow> map_of table username = Some (JStr password)))"
proof -
  have strings: "\<forall>k\<in>set (map fst table). is_string (get_prop (JObject table) k)"
  proof
    fix k assume "k \<in> set (map fst table)"
    then obtain v where "map_of table k = Some v"
      by (metis map_of_eq_None_iff not_Some_eq set_map)
    moreover from this have "v \<in> snd ` set table"
      by (auto dest: map_of_SomeD intro: rev_image_eqI)
    ultimately show "is_string (get_prop (JObject table) k)"
      using assms by auto
  qed
  have "users_loop (JObject table) (JStr username) (JStr password) (map fst table) (JBool False, [])
    = Inr (if map fst table = [] then JBool False
           else JNum (of_bool (False \<or> (\<exists>k\<in>set (map fst table).
                  entry_matches (JObject table) username password k))),
           [] @ concat (map (\<lambda>k. [(JStr username, JStr k), (JStr password, get_prop (JObject table) k)])
                    (map fst table)))"
    using strings by (intro users_loop_strings) simp_all
  then have "users_loop (JObject table) (JStr username) (JStr password) (map fst table) (JBool False, [])
    = Inr (if table = [] then JBool False
           else JNum (of_bool (\<exists>k p. map_of table k = Some (JStr p)
                                 \<and> utf8 username = utf8 k \<and> utf8 password = utf8 p)),
           concat (map (\<lambda>k. [(JStr username, JStr k), (JStr password, get_prop (JObject table) k)])
                    (map fst table)))"
    by (simp only: table_entry_matches map_is_Nil_conv simp_thms append_Nil)
  then have run: "staticUsersAuthorizer (JObject table) [JStr username, JStr password]
    = Inr (if table = [] then JBool False
           else JNum (of_bool (\<exists>k p. map_of table k = Some (JStr p)
                                 \<and> utf8 username = utf8 k \<and> utf8 password = utf8 p)),
           concat (map (\<lambda>k. [(JStr username, JStr k), (JStr password, get_prop (JObject table) k)])
                    (map fst table)))"
    by (simp add: staticUsersAuthorizer_def arg_def)
  have "table = [] \<Longrightarrow> \<not> (\<exists>k p. map_of table k = Some (JStr p)
                  \<and> utf8 username = utf8 k \<and> utf8 password = utf8 p)"
    by simp
  with run exact_entry [of username password table] show ?thesis
    by auto
qed


text \<open>The table and the requests of the repository's tests, and the empty table.\<close>

theorem static_table_policy_witness:
  "staticUsersAuthorizer (JObject [(js ''Admin'', JStr (js ''secret1234''))])
     [JStr (js ''Admin''), JStr (js ''secret'')]
   = Inr (JNum 0, [(JStr (js ''Admin''), JStr (js ''Admin'')),
                   (JStr (js ''secret''), JStr (js ''secret1234''))])
   \<and> staticUsersAuthorizer (JObject [(js ''Admin'', JStr (js ''secret1234''))])
     [JStr (js ''Admin''), JStr (js ''secret1234'')]
   = Inr (JNum 1, [(JStr (js ''Admin''), JStr (js ''Admin'')),
                   (JStr (js ''secret1234''), JStr (js ''secret1234''))])
   \<and> staticUsersAuthorizer (JObject []) [JStr (js ''Admin''), JStr (js ''secret1234'')]
   = Inr (JBool False, [])"
proof -
  let ?table = "[(js ''Admin'', JStr (js ''secret1234''))]"
  have strings: "\<forall>v\<in>snd ` set ?table. is_string v"
    "\<forall>v\<in>snd ` set ([] :: (jsstring \<times> jsval) list). is_string v"
    by (simp_all add: is_string_def)
  have wf: "well_formed (js ''Admin'')" "well_formed (js ''secret'')"
    "well_formed (js ''secret1234'')"
    by (simp_all add: js_def is_high_surrogate_def is_low_surrogate_def)
  then have table: "\<forall>(k, v)\<in>set ?table. well_formed k \<and> (\<forall>p. v = JStr p \<longrightarrow> well_formed p)"
    by simp
  have different: "js ''secret'' \<noteq> js ''secret1234''"
    by (simp add: js_def)
  have "(\<exists>k p. map_of ?table k = Some (JStr p)
             \<and> utf8 (js ''Admin'') = utf8 k \<and> utf8 (js ''secret'') = utf8 p)
         \<longleftrightarrow> map_of ?table (js ''Admin'') = Some (JStr (js ''secret''))"
    using static_table_policy [OF strings(1), of "js ''Admin''" "js ''secret''"] wf table
    by blast
  moreover have "(\<exists>k p. map_of ?table k = Some (JStr p)
             \<and> utf8 (js ''Admin'') = utf8 k \<and> utf8 (js ''secret1234'') = utf8 p)
         \<longleftrightarrow> map_of ?table (js ''Admin'') = Some (JStr (js ''secret1234''))"
    using static_table_policy [OF strings(1), of "js ''Admin''" "js ''secret1234''"] wf table
    by blast
  ultimately show ?thesis
    using static_table_policy [OF strings(1), of "js ''Admin''" "js ''secret''"]
      static_table_policy [OF strings(1), of "js ''Admin''" "js ''secret1234''"]
      static_table_policy [OF strings(2), of "js ''Admin''" "js ''secret1234''"]
      different
    by simp
qed

section \<open>Properties of the construction\<close>


lemma buildMiddleware_users_error:
  assumes "truthy (opt_users options)" "typeof (opt_users options) \<noteq> ''object''"
  shows "buildMiddleware options
    = Inl (AssertionError (''Expected an object for the basic auth users, found ''
                           @ typeof (opt_users options) @ '' instead''))"
  using assms by (simp add: buildMiddleware_def)

lemma buildMiddleware_authorizer_error:
  assumes "\<not> (truthy (opt_users options) \<and> typeof (opt_users options) \<noteq> ''object'')"
    and "truthy (opt_authorizer options)" "typeof (opt_authorizer options) \<noteq> ''function''"
  shows "buildMiddleware options
    = Inl (AssertionError (''Expected a function for the basic auth authorizer, found ''
                           @ typeof (opt_authorizer options) @ '' instead''))"
  using assms by (auto simp add: buildMiddleware_def)

lemma buildMiddleware_ok:
  assumes "\<not> (truthy (opt_users options) \<and> typeof (opt_users options) \<noteq> ''object'')"
    and "\<not> (truthy (opt_authorizer options) \<and> typeof (opt_authorizer options) \<noteq> ''function'')"
  shows "\<exists>cfg. buildMiddleware options = Inr cfg"
  using assms by (auto simp add: buildMiddleware_def)

lemma buildMiddleware_built:
  assumes "buildMiddleware options = Inr cfg"
  shows "typeof (users cfg) = ''object'' \<and> typeof_authorizer (authorizer cfg) = ''function''"
  using assms by (auto simp add: buildMiddleware_def Let_def split: if_splits)

lemma buildMiddleware_defaults:
  assumes "buildMiddleware options = Inr cfg"
  shows "users cfg = (if truthy (opt_users options) then opt_users options else JObject [])"
    and "authorizer cfg = (if truthy (opt_authorizer options)
                           then Supplied (opt_authorizer options) else StaticUsersAuthorizer)"
  using assms by (auto simp add: buildMiddleware_def Let_def split: if_splits)

text \<open>
  Claim C9, as amended. For every options value whose \<open>users\<close> field is a truthy value
  that is not of object type, or whose \<open>authorizer\<close> field is a truthy value that is not
  a function, \<open>buildMiddleware\<close> fails with an assertion error (the one about the users
  first), and it fails in no other case. A falsy field (\<open>undefined\<close>, \<open>null\<close>,
  \<open>false\<close>, \<open>0\<close>, \<open>""\<close>) raises no error by itself: a middleware that is built
  has the empty mapping as its users when the \<open>users\<close> field is falsy and the field
  itself otherwise, and the built-in policy as its authorizer when the \<open>authorizer\<close>
  field is falsy and the field itself otherwise; so when \<open>users\<close> is falsy the
  middleware is built, with the empty mapping, unless the \<open>authorizer\<close> field is truthy
  and not a function, and when \<open>authorizer\<close> is falsy it is built, with the built-in
  policy, unless the \<open>users\<close> field is truthy and not of object type. Every middleware
  that is built has users of object type and an authorizer that is a function, so
  neither error can appear when a request is processed.
\<close>

theorem configuration_errors:
  "(truthy (opt_users options) \<and> typeof (opt_users options) \<noteq> ''object'' \<longrightarrow>
      buildMiddleware options
        = Inl (AssertionError (''Expected an object for the basic auth users, found ''
                               @ typeof (opt_users options) @ '' instead'')))
   \<and> (\<not> (truthy (opt_users options) \<and> typeof (opt_users options) \<noteq> ''object'')
        \<and> truthy (opt_authorizer options) \<and> typeof (opt_authorizer options) \<noteq> ''function'' \<longrightarrow>
      buildMiddleware options
        = Inl (AssertionError (''Expected a function for the basic auth authorizer, found ''
                               @ typeof (opt_authorizer options) @ '' instead'')))
   \<and> ((truthy (opt_users options) \<and> typeof (opt_users options) \<noteq> ''object'')
        \<or> (truthy (opt_authorizer options) \<and> typeof (opt_authorizer options) \<noteq> ''function'')
      \<longleftrightarrow> (\<exists>msg. buildMiddleware options = Inl (AssertionError msg)))
   \<and> (buildMiddleware options = Inr cfg \<longrightarrow>
        typeof (users cfg) = ''object'' \<and> typeof_authorizer (authorizer cfg) = ''function'')
   \<and> (buildMiddleware options = Inr cfg \<longrightarrow>
        users cfg = (if truthy (opt_users options) then opt_users options else JObject [])
        \<and> authorizer cfg = (if truthy (opt_authorizer options)
                            then Supplied (opt_authorizer options) else StaticUsersAuthorizer))
   \<and> (\<not> truthy (opt_users options)
        \<and> \<not> (truthy (opt_authorizer options) \<and> typeof (opt_authorizer options) \<noteq> ''function'') \<longrightarrow>
        (\<exists>built. buildMiddleware options = Inr built \<and> users built = JObject []))
   \<and> (\<not> truthy (opt_authorizer options)
        \<and> \<not> (truthy (opt_users options) \<and> typeof (opt_users options) \<noteq> ''object'') \<longrightarrow>
        (\<exists>built. buildMiddleware options = Inr built \<and> authorizer built = StaticUsersAuthorizer))"
proof -
  have fails: "(truthy (opt_users options) \<and> typeof (opt_users options) \<noteq> ''object'')
        \<or> (truthy (opt_authorizer options) \<and> typeof (opt_authorizer options) \<noteq> ''function'')
      \<longleftrightarrow> (\<exists>msg. buildMiddleware options = Inl (AssertionError msg))"
    using buildMiddleware_users_error [of options] buildMiddleware_authorizer_error [of options]
      buildMiddleware_ok [of options]
    by (metis Inl_Inr_False)
  have old: "(truthy (opt_users options) \<and> typeof (opt_users options) \<noteq> ''object'' \<longrightarrow>
      buildMiddleware options
        = Inl (AssertionError (''Expected an object for the basic auth users, found ''
                               @ typeof (opt_users options) @ '' instead'')))
   \<and> (\<not> (truthy (opt_users options) \<and> typeof (opt_users options) \<noteq> ''object'')
        \<and> truthy (opt_authorizer options) \<and> typeof (opt_authorizer options) \<noteq> ''function'' \<longrightarrow>
      buildMiddleware options
        = Inl (AssertionError (''Expected a function for the basic auth authorizer, found ''
                               @ typeof (opt_authorizer options) @ '' instead'')))
   \<and> (buildMiddleware options = Inr cfg \<longrightarrow>
        typeof (users cfg) = ''object'' \<and> typeof_authorizer (authorizer cfg) = ''function'')"
    using buildMiddleware_users_error [of options]
      buildMiddleware_authorizer_error [of options] buildMiddleware_built [of options cfg]
    by blast
  have defaults: "buildMiddleware options = Inr cfg \<longrightarrow>
        users cfg = (if truthy (opt_users options) then opt_users options else JObject [])
        \<and> authorizer cfg = (if truthy (opt_authorizer options)
                            then Supplied (opt_authorizer options) else StaticUsersAuthorizer)"
    using buildMiddleware_defaults [of options cfg] by blast
  have falsy_users: "\<exists>built. buildMiddleware options = Inr built \<and> users built = JObject []"
    if "\<not> truthy (opt_users options)"
      "\<not> (truthy (opt_authorizer options) \<and> typeof (opt_authorizer options) \<noteq> ''function'')"
  proof -
    from that obtain built where built: "buildMiddleware options = Inr built"
      using buildMiddleware_ok [of options] by blast
    with that(1) have "users built = JObject []"
      by (simp add: buildMiddleware_defaults)
    with built show ?thesis by blast
  qed
  have falsy_authorizer:
    "\<exists>built. buildMiddleware options = Inr built \<and> authorizer built = StaticUsersAuthorizer"
    if "\<not> truthy (opt_authorizer options)"
      "\<not> (truthy (opt_users options) \<and> typeof (opt_users options) \<noteq> ''object'')"
  proof -
    from that obtain built where built: "buildMiddleware options = Inr built"
      using buildMiddleware_ok [of options] by blast
    with that(1) have "authorizer built = StaticUsersAuthorizer"
      by (simp add: buildMiddleware_defaults)
    with built show ?thesis by blast
  qed
  from old fails defaults falsy_users falsy_authorizer show ?thesis
    by blast
qed

text \<open>
  A string as users and a number as authorizer are refused; the number \<open>0\<close> as users
  and \<open>null\<close> as authorizer are replaced by the empty mapping and the built-in policy;
  and the number \<open>0\<close> as users together with the number \<open>5\<close> as authorizer is refused
  for the authorizer.
\<close>

theorem configuration_errors_witness:
  "buildMiddleware (no_options\<lparr>opt_users := JStr (js ''Admin'')\<rparr>)
     = Inl (AssertionError ''Expected an object for the basic auth users, found string instead'')
   \<and> buildMiddleware (no_options\<lparr>opt_users := JObject [], opt_authorizer := JNum 5\<rparr>)
     = Inl (AssertionError ''Expected a function for the basic auth authorizer, found number instead'')
   \<and> buildMiddleware (no_options\<lparr>opt_users := JNum 0, opt_authorizer := JNum 5\<rparr>)
     = Inl (AssertionError ''Expected a function for the basic auth authorizer, found number instead'')
   \<and> buildMiddleware (no_options\<lparr>opt_users := JNum 0, opt_authorizer := JNull\<rparr>)
     = Inr default_config
   \<and> users default_config = JObject []
   \<and> authorizer default_config = StaticUsersAuthorizer
   \<and> typeof (users default_config) = ''object''
   \<and> typeof_authorizer (authorizer default_config) = ''function''"
proof -
  let ?falsy = "no_options\<lparr>opt_users := JNum 0, opt_authorizer := JNull\<rparr>"
  have built: "buildMiddleware ?falsy = Inr default_config"
    by (simp add: buildMiddleware_def no_options_def default_config_def)
  have falsy: "\<not> truthy (opt_users ?falsy)" "\<not> truthy (opt_authorizer ?falsy)"
    by (simp_all add: no_options_def)
  have "users default_config = JObject [] \<and> authorizer default_config = StaticUsersAuthorizer
      \<and> typeof (users default_config) = ''object''
      \<and> typeof_authorizer (authorizer default_config) = ''function''"
    using configuration_errors [of ?falsy default_config] built falsy
    by simp
  moreover have "buildMiddleware (no_options\<lparr>opt_users := JStr (js ''Admin'')\<rparr>)
     = Inl (AssertionError ''Expected an object for the basic auth users, found string instead'')"
    using configuration_errors [of "no_options\<lparr>opt_users := JStr (js ''Admin'')\<rparr>"]
    by (simp add: no_options_def js_def)
  moreover have "buildMiddleware (no_options\<lparr>opt_users := JObject [], opt_authorizer := JNum 5\<rparr>)
     = Inl (AssertionError ''Expected a function for the basic auth authorizer, found number instead'')"
    using configuration_errors [of "no_options\<lparr>opt_users := JObject [], opt_authorizer := JNum 5\<rparr>"]
    by (simp add: no_options_def)
  moreover have "buildMiddleware (no_options\<lparr>opt_users := JNum 0, opt_authorizer := JNum 5\<rparr>)
     = Inl (AssertionError ''Expected a function for the basic auth authorizer, found number instead'')"
    using configuration_errors [of "no_options\<lparr>opt_users := JNum 0, opt_authorizer := JNum 5\<rparr>"]
    by (simp add: no_options_def)
  ultimately show ?thesis
    using built by blast
qed

text \<open>
  Claim C9 as stated fails for a falsy value: the number \<open>0\<close> as \<open>users\<close> is not of
  object type, and the empty string as \<open>authorizer\<close> is not callable, yet
  \<open>options.users || {}\<close> and \<open>options.authorizer || staticUsersAuthorizer\<close> replace
  them, and the middleware is built.
\<close>

theorem falsy_users_counterexample:
  "typeof (opt_users (no_options\<lparr>opt_users := JNum 0, opt_authorizer := JFunction 0\<rparr>)) = ''number''
   \<and> buildMiddleware (no_options\<lparr>opt_users := JNum 0, opt_authorizer := JFunction 0\<rparr>)
     = Inr \<lparr> challenge = False, users = JObject [], authorizer = Supplied (JFunction 0),
             isAsync = False, passRequest = False, allowEmptyCredentials = False,
             getResponseBody = Constant (JStr []), realm = Constant JUndefined \<rparr>
   \<and> typeof (opt_authorizer (no_options\<lparr>opt_authorizer := JStr []\<rparr>)) = ''string''
   \<and> buildMiddleware (no_options\<lparr>opt_authorizer := JStr []\<rparr>)
     = Inr \<lparr> challenge = False, users = JObject [], authorizer = StaticUsersAuthorizer,
             isAsync = False, passRequest = False, allowEmptyCredentials = False,
             getResponseBody = Constant (JStr []), realm = Constant JUndefined \<rparr>"
  by (simp add: buildMiddleware_def no_options_def)

section \<open>Properties of the denial\<close>

lemma unauthorized_calls:
  "res_calls (unauthorized rt cfg s)
     = res_calls s
       @ (if challenge cfg
          then [Set (js ''WWW-Authenticate'')
                    (challengeString rt (apply_producer rt (realm cfg) (req s)))]
          else [])
       @ [Status 401, body_call (apply_producer rt (getResponseBody cfg) (req s))]"
  by (simp add: unauthorized_def res_call_def Let_def)

lemma unauthorized_rest:
  "req (unauthorized rt cfg s) = req s"
  "next_calls (unauthorized rt cfg s) = next_calls s"
  "authorizer_calls (unauthorized rt cfg s) = authorizer_calls s"
  by (simp_all add: unauthorized_def res_call_def Let_def)

lemma buildMiddleware_fields:
  assumes "buildMiddleware options = Inr cfg"
  shows "challenge cfg = truthy (opt_challenge options)"
    and "getResponseBody cfg = ensureFunction (opt_unauthorizedResponse options) (JStr [])"
    and "realm cfg = ensureFunction (opt_realm options) JUndefined"
    and "isAsync cfg = truthy (opt_authorizeAsync options)"
    and "passRequest cfg = truthy (opt_passRequest options)"
    and "allowEmptyCredentials cfg = truthy (opt_allowEmptyCredentials options)"
    and "users cfg = (if truthy (opt_users options) then opt_users options else JObject [])"
    and "authorizer cfg = (if truthy (opt_authorizer options)
                           then Supplied (opt_authorizer options) else StaticUsersAuthorizer)"
  using assms by (auto simp add: buildMiddleware_def Let_def split: if_splits)

lemma apply_ensureFunction:
  "apply_producer rt (ensureFunction option defaultValue) r
     = (case option of
          JUndefined \<Rightarrow> defaultValue
        | JFunction f \<Rightarrow> call_producer rt f (JObject r)
        | v \<Rightarrow> v)"
  by (cases option) (simp_all add: apply_producer_def)

lemma body_call_not_Set: "body_call response \<noteq> Set n v"
  by (cases response) simp_all

text \<open>
  Claim C6. The calls that \<open>unauthorized\<close> makes on the response are a call of
  \<open>set\<close> for the header \<open>WWW-Authenticate\<close> when \<open>challenge\<close> is true, then the
  status 401 and the body; the denial sets that header exactly when \<open>challenge\<close> is
  true. Its value is \<open>Basic realm="v"\<close>, with \<open>v\<close> as it is, when \<open>realm(req)\<close> is
  the non-empty string \<open>v\<close>, and \<open>Basic\<close> when \<open>realm(req)\<close> is \<open>undefined\<close>,
  \<open>null\<close> or the empty string (the code unit 0x22 is the double quote). In a middleware
  built from options, \<open>challenge\<close> is the truth value of the option, and \<open>realm(req)\<close>
  is the result of the option when it is a function, and the option itself otherwise.
\<close>

theorem challenge_header:
  "(\<exists>body. res_calls (unauthorized rt cfg s)
        = res_calls s
          @ (if challenge cfg
             then [Set (js ''WWW-Authenticate'')
                       (challengeString rt (apply_producer rt (realm cfg) (req s)))]
             else [])
          @ [Status 401, body]
        \<and> (\<forall>n v. body \<noteq> Set n v))
   \<and> ((\<exists>v. Set (js ''WWW-Authenticate'') v
             \<in> set (drop (length (res_calls s)) (res_calls (unauthorized rt cfg s))))
        \<longleftrightarrow> challenge cfg)
   \<and> (v \<noteq> [] \<longrightarrow> challengeString rt (JStr v) = js ''Basic realm='' @ [0x22] @ v @ [0x22])
   \<and> challengeString rt JUndefined = js ''Basic''
   \<and> challengeString rt JNull = js ''Basic''
   \<and> challengeString rt (JStr []) = js ''Basic''
   \<and> (buildMiddleware options = Inr cfg \<longrightarrow>
        challenge cfg = truthy (opt_challenge options)
        \<and> apply_producer rt (realm cfg) (req s)
            = (case opt_realm options of
                 JUndefined \<Rightarrow> JUndefined
               | JFunction f \<Rightarrow> call_producer rt f (JObject (req s))
               | value \<Rightarrow> value))"
proof -
  let ?body = "body_call (apply_producer rt (getResponseBody cfg) (req s))"
  have body: "\<forall>n v. ?body \<noteq> Set n v"
    by (simp add: body_call_not_Set)
  have calls: "\<exists>body. res_calls (unauthorized rt cfg s)
        = res_calls s
          @ (if challenge cfg
             then [Set (js ''WWW-Authenticate'')
                       (challengeString rt (apply_producer rt (realm cfg) (req s)))]
             else [])
          @ [Status 401, body]
        \<and> (\<forall>n v. body \<noteq> Set n v)"
    using unauthorized_calls [of rt cfg s] body by blast
  have carried: "(\<exists>v. Set (js ''WWW-Authenticate'') v
             \<in> set (drop (length (res_calls s)) (res_calls (unauthorized rt cfg s))))
        \<longleftrightarrow> challenge cfg"
    by (simp add: unauthorized_calls body_call_not_Set body_call_not_Set [symmetric])
  have strings: "v \<noteq> [] \<longrightarrow> challengeString rt (JStr v) = js ''Basic realm='' @ [0x22] @ v @ [0x22]"
    "challengeString rt JUndefined = js ''Basic''"
    "challengeString rt JNull = js ''Basic''"
    "challengeString rt (JStr []) = js ''Basic''"
    by (simp_all add: challengeString_def template_def)
  have built: "buildMiddleware options = Inr cfg \<longrightarrow>
        challenge cfg = truthy (opt_challenge options)
        \<and> apply_producer rt (realm cfg) (req s)
            = (case opt_realm options of
                 JUndefined \<Rightarrow> JUndefined
               | JFunction f \<Rightarrow> call_producer rt f (JObject (req s))
               | value \<Rightarrow> value)"
    by (simp add: buildMiddleware_fields apply_ensureFunction)
  from calls carried strings built show ?thesis
    by blast
qed


lemma js_test: "js ''test'' \<noteq> []"
  by (simp add: js_def)

theorem challenge_header_witness:
  "buildMiddleware (no_options\<lparr>opt_challenge := JBool True, opt_realm := JStr (js ''test'')\<rparr>)
     = Inr (default_config\<lparr>challenge := True, realm := Constant (JStr (js ''test''))\<rparr>)
   \<and> res_calls (unauthorized (test_runtime None)
         (default_config\<lparr>challenge := True, realm := Constant (JStr (js ''test''))\<rparr>) (fresh []))
     = [Set (js ''WWW-Authenticate'') (js ''Basic realm='' @ [0x22] @ js ''test'' @ [0x22]),
        Status 401, Send []]
   \<and> res_calls (unauthorized (test_runtime None) (default_config\<lparr>challenge := True\<rparr>) (fresh []))
     = [Set (js ''WWW-Authenticate'') (js ''Basic''), Status 401, Send []]
   \<and> res_calls (unauthorized (test_runtime None) default_config (fresh []))
     = [Status 401, Send []]"
proof -
  let ?cfg = "default_config\<lparr>challenge := True, realm := Constant (JStr (js ''test''))\<rparr>"
  have built: "buildMiddleware (no_options\<lparr>opt_challenge := JBool True, opt_realm := JStr (js ''test'')\<rparr>)
     = Inr ?cfg"
    by (simp add: buildMiddleware_def no_options_def default_config_def)
  have realm: "apply_producer (test_runtime None) (realm ?cfg) (req (fresh [])) = JStr (js ''test'')"
    using challenge_header [of "test_runtime None" ?cfg "fresh []" "js ''test''"
        "no_options\<lparr>opt_challenge := JBool True, opt_realm := JStr (js ''test'')\<rparr>"] built
    by (simp add: no_options_def)
  have header: "challengeString (test_runtime None) (JStr (js ''test''))
      = js ''Basic realm='' @ [0x22] @ js ''test'' @ [0x22]"
    using challenge_header [of "test_runtime None" ?cfg "fresh []" "js ''test''"] js_test
    by blast
  have plain: "challengeString (test_runtime None) JUndefined = js ''Basic''"
    using challenge_header [of "test_runtime None" ?cfg "fresh []" "js ''test''"]
    by blast
  show ?thesis
    using built realm header plain
    by (simp add: unauthorized_calls fresh_def default_config_def apply_producer_def)
qed

text \<open>
  Claim C7. The body of a denial is the value of \<open>getResponseBody(req)\<close>: a string is
  handed to \<open>send\<close> as it is, after the status 401, and every value that is not a
  string is handed to \<open>json\<close>. In a middleware built from options that value is the
  result of the option \<open>unauthorizedResponse\<close> on the request when the option is a
  function, the option itself when it is any other value, and the empty string when it
  is absent.
\<close>

theorem denial_body:
  assumes "response = apply_producer rt (getResponseBody cfg) (req s)"
  shows "(\<forall>body. response = JStr body \<longrightarrow>
            res_calls (unauthorized rt cfg s)
              = res_calls s
                @ (if challenge cfg
                   then [Set (js ''WWW-Authenticate'')
                             (challengeString rt (apply_producer rt (realm cfg) (req s)))]
                   else [])
                @ [Status 401, Send body])
    \<and> (\<not> is_string response \<longrightarrow>
            res_calls (unauthorized rt cfg s)
              = res_calls s
                @ (if challenge cfg
                   then [Set (js ''WWW-Authenticate'')
                             (challengeString rt (apply_producer rt (realm cfg) (req s)))]
                   else [])
                @ [Status 401, Json response])
    \<and> (buildMiddleware options = Inr cfg \<longrightarrow>
          response = (case opt_unauthorizedResponse options of
                        JUndefined \<Rightarrow> JStr []
                      | JFunction f \<Rightarrow> call_producer rt f (JObject (req s))
                      | value \<Rightarrow> value))"
proof -
  have "\<not> is_string response \<Longrightarrow> body_call response = Json response"
    by (cases response) (simp_all add: is_string_def)
  then show ?thesis
    using assms by (auto simp add: unauthorized_calls buildMiddleware_fields apply_ensureFunction)
qed

theorem denial_body_witness:
  "res_calls (unauthorized (test_runtime None)
      (default_config\<lparr>getResponseBody := Constant (JStr (js ''Haaaaaha''))\<rparr>) (fresh []))
     = [Status 401, Send (js ''Haaaaaha'')]
   \<and> res_calls (unauthorized (test_runtime None)
      (default_config\<lparr>getResponseBody := Constant (JObject [(js ''foo'', JStr (js ''bar''))])\<rparr>)
      (fresh []))
     = [Status 401, Json (JObject [(js ''foo'', JStr (js ''bar''))])]
   \<and> buildMiddleware (no_options\<lparr>opt_unauthorizedResponse := JFunction 7\<rparr>)
     = Inr (default_config\<lparr>getResponseBody := UserFunction 7\<rparr>)
   \<and> res_calls (unauthorized (test_runtime None)
      (default_config\<lparr>getResponseBody := UserFunction 7\<rparr>) (fresh []))
     = [Status 401, Send (js ''bla'')]"
proof -
  let ?text = "default_config\<lparr>getResponseBody := Constant (JStr (js ''Haaaaaha''))\<rparr>"
  let ?json = "default_config\<lparr>getResponseBody := Constant (JObject [(js ''foo'', JStr (js ''bar''))])\<rparr>"
  let ?fn = "default_config\<lparr>getResponseBody := UserFunction 7\<rparr>"
  have built: "buildMiddleware (no_options\<lparr>opt_unauthorizedResponse := JFunction 7\<rparr>) = Inr ?fn"
    by (simp add: buildMiddleware_def no_options_def default_config_def)
  have a: "JStr (js ''Haaaaaha'') = apply_producer (test_runtime None) (getResponseBody ?text) (req (fresh []))"
    and b: "JObject [(js ''foo'', JStr (js ''bar''))]
        = apply_producer (test_runtime None) (getResponseBody ?json) (req (fresh []))"
    and c: "JStr (js ''bla'') = apply_producer (test_runtime None) (getResponseBody ?fn) (req (fresh []))"
    by (simp_all add: apply_producer_def default_config_def test_runtime_def)
  have d: "\<not> is_string (JObject [(js ''foo'', JStr (js ''bar''))])"
    by (simp add: is_string_def)
  show ?thesis
    using denial_body [OF a] denial_body [OF b] d denial_body [OF c] built
    by (simp add: default_config_def fresh_def)
qed

section \<open>Properties of the middleware\<close>

lemma authMiddleware_early:
  "auth rt (req s) = None \<Longrightarrow> \<not> allowEmptyCredentials cfg \<Longrightarrow>
   authMiddleware rt cfg s = (None, unauthorized rt cfg s)"
  by (simp add: authMiddleware_def)

lemma authMiddleware_called:
  assumes "auth rt (req s) \<noteq> None \<or> allowEmptyCredentials cfg"
  shows "authMiddleware rt cfg s =
     (if isAsync cfg then
        (case run_callbacks rt cfg (cb_calls (authorizer_result rt cfg s)) (called rt cfg s) of
           (Some e, s3) \<Rightarrow> (Some e, s3)
         | (None, s3) \<Rightarrow>
             (case completion (authorizer_result rt cfg s) of
                Inl e \<Rightarrow> (Some e, s3) | Inr v \<Rightarrow> (None, s3)))
      else
        (case completion (authorizer_result rt cfg s) of
           Inl e \<Rightarrow> (Some e, called rt cfg s)
         | Inr v \<Rightarrow>
             if \<not> truthy v then (None, unauthorized rt cfg (called rt cfg s))
             else (None, call_next (called rt cfg s))))"
  using assms unfolding authMiddleware_def called_def authorizer_result_def Let_def
  by auto

lemma called_fields:
  "res_calls (called rt cfg s) = res_calls s"
  "next_calls (called rt cfg s) = next_calls s"
  "req (called rt cfg s)
     = set_prop (req s) (js ''auth'')
         (JObject [(js ''user'', fst (credentials (auth rt (req s)))),
                   (js ''password'', snd (credentials (auth rt (req s))))])"
  "authorizer_calls (called rt cfg s)
     = authorizer_calls s
       @ [(if passRequest cfg
           then [JObject (req (called rt cfg s)), fst (credentials (auth rt (req s))),
                 snd (credentials (auth rt (req s)))]
           else [fst (credentials (auth rt (req s))), snd (credentials (auth rt (req s)))],
           isAsync cfg)]"
  by (simp_all add: called_def attach_auth_def authorizer_args_def Let_def)

lemma call_next_fields:
  "res_calls (call_next s) = res_calls s"
  "next_calls (call_next s) = next_calls s + 1"
  "req (call_next s) = req s"
  "authorizer_calls (call_next s) = authorizer_calls s"
  by (simp_all add: call_next_def)

lemma authorizerCallback_keeps:
  "req (snd (authorizerCallback rt cfg err approved s)) = req s"
  "authorizer_calls (snd (authorizerCallback rt cfg err approved s)) = authorizer_calls s"
  by (simp_all add: authorizerCallback_def call_next_fields unauthorized_rest)

lemma run_callbacks_keeps:
  "req (snd (run_callbacks rt cfg cbs s)) = req s
   \<and> authorizer_calls (snd (run_callbacks rt cfg cbs s)) = authorizer_calls s"
proof (induction cbs arbitrary: s)
  case Nil
  show ?case by simp
next
  case (Cons cb cbs)
  obtain err approved where cb: "cb = (err, approved)"
    by (cases cb)
  obtain e s' where step: "authorizerCallback rt cfg err approved s = (e, s')"
    by (cases "authorizerCallback rt cfg err approved s")
  then have "req s' = req s" "authorizer_calls s' = authorizer_calls s"
    using authorizerCallback_keeps [of rt cfg err approved s] by simp_all
  with Cons [of s'] step cb show ?case
    by (cases e) simp_all
qed

lemma authMiddleware_keeps:
  assumes "auth rt (req s) \<noteq> None \<or> allowEmptyCredentials cfg"
  shows "req (snd (authMiddleware rt cfg s)) = req (called rt cfg s)"
    and "authorizer_calls (snd (authMiddleware rt cfg s)) = authorizer_calls (called rt cfg s)"
  using run_callbacks_keeps [of rt cfg "cb_calls (authorizer_result rt cfg s)" "called rt cfg s"]
  by (auto simp add: authMiddleware_called [OF assms] call_next_fields unauthorized_rest
      split: prod.splits option.splits sum.splits)

lemma run_callbacks_fault:
  assumes "err \<noteq> JNull" "err \<noteq> JUndefined"
  shows "run_callbacks rt cfg ((err, approved) # cbs) s = (Some (IfError err), s)"
  using assms by (simp add: authorizerCallback_def)

lemma authMiddleware_verdict:
  assumes "auth rt (req s) \<noteq> None \<or> allowEmptyCredentials cfg"
    and "callback_contract (isAsync cfg) (authorizer_result rt cfg s)"
  shows "snd (authMiddleware rt cfg s)
     = (case authorizer_verdict (isAsync cfg) (authorizer_result rt cfg s) of
          Allow \<Rightarrow> call_next (called rt cfg s)
        | Deny \<Rightarrow> unauthorized rt cfg (called rt cfg s)
        | Fault e \<Rightarrow> called rt cfg s
        | Pending \<Rightarrow> called rt cfg s)"
proof (cases "isAsync cfg")
  case False
  then show ?thesis
    by (simp add: authMiddleware_called [OF assms(1)] authorizer_verdict_def split: sum.splits)
next
  case True
  with assms(2) obtain err approved where cb: "cb_calls (authorizer_result rt cfg s) = [(err, approved)]"
    by (cases "cb_calls (authorizer_result rt cfg s)") (auto simp add: callback_contract_def)
  with True show ?thesis
    by (simp add: authMiddleware_called [OF assms(1)] authorizer_verdict_def authorizerCallback_def
        split: sum.splits)
qed

lemma verdict_thrown:
  assumes "auth rt (req s) \<noteq> None \<or> allowEmptyCredentials cfg"
    and "callback_contract (isAsync cfg) (authorizer_result rt cfg s)"
    and "authorizer_verdict (isAsync cfg) (authorizer_result rt cfg s) = Fault e"
  shows "fst (authMiddleware rt cfg s) = Some e"
proof (cases "isAsync cfg")
  case False
  with assms(3) show ?thesis
    by (simp add: authMiddleware_called [OF assms(1)] authorizer_verdict_def split: sum.splits if_splits)
next
  case True
  with assms(2) obtain err approved where cb: "cb_calls (authorizer_result rt cfg s) = [(err, approved)]"
    by (cases "cb_calls (authorizer_result rt cfg s)") (auto simp add: callback_contract_def)
  with True assms(3) show ?thesis
    by (auto simp add: authMiddleware_called [OF assms(1)] authorizer_verdict_def authorizerCallback_def
        split: sum.splits if_splits)
qed


text \<open>
  Claim C5. When the completion callback is invoked with an error that is neither
  \<open>null\<close> nor \<open>undefined\<close> (the two values \<open>assert.ifError\<close> lets through), the
  callback throws: it does not call \<open>next\<close> and it makes no call on the response. So
  when the first invocation of the callback that an asynchronous authorizer makes carries
  such an error, the middleware ends with that exception, uncaught; no 401 response has
  been produced, and \<open>next\<close> has not been called.
\<close>

theorem authorizer_fault:
  assumes "err \<noteq> JNull" and "err \<noteq> JUndefined"
  shows "authorizerCallback rt cfg err approved s = (Some (IfError err), s)
    \<and> (isAsync cfg \<and> (auth rt (req s) \<noteq> None \<or> allowEmptyCredentials cfg)
        \<and> cb_calls (authorizer_result rt cfg s) = (err, approved) # cbs \<longrightarrow>
          authMiddleware rt cfg s = (Some (IfError err), called rt cfg s)
          \<and> res_calls (called rt cfg s) = res_calls s
          \<and> next_calls (called rt cfg s) = next_calls s)"
proof -
  have cb: "authorizerCallback rt cfg err approved s = (Some (IfError err), s)"
    using assms by (simp add: authorizerCallback_def)
  have "authMiddleware rt cfg s = (Some (IfError err), called rt cfg s)"
    if "isAsync cfg" "auth rt (req s) \<noteq> None \<or> allowEmptyCredentials cfg"
      "cb_calls (authorizer_result rt cfg s) = (err, approved) # cbs"
    using that run_callbacks_fault [OF assms, of rt cfg approved cbs "called rt cfg s"]
    by (simp add: authMiddleware_called)
  with cb show ?thesis
    by (simp add: called_fields)
qed

theorem authorizer_fault_witness:
  "fst (authMiddleware (test_runtime (Some (js ''Admin'', js ''secret'')))
         (default_config\<lparr>authorizer := Supplied (JFunction 2), isAsync := True\<rparr>) (fresh []))
     = Some (IfError (JObject [(js ''message'', JStr (js ''down''))]))
   \<and> res_calls (snd (authMiddleware (test_runtime (Some (js ''Admin'', js ''secret'')))
         (default_config\<lparr>authorizer := Supplied (JFunction 2), isAsync := True\<rparr>) (fresh [])))
     = []
   \<and> next_calls (snd (authMiddleware (test_runtime (Some (js ''Admin'', js ''secret'')))
         (default_config\<lparr>authorizer := Supplied (JFunction 2), isAsync := True\<rparr>) (fresh [])))
     = 0"
proof -
  let ?rt = "test_runtime (Some (js ''Admin'', js ''secret''))"
  let ?cfg = "default_config\<lparr>authorizer := Supplied (JFunction 2), isAsync := True\<rparr>"
  let ?err = "JObject [(js ''message'', JStr (js ''down''))]"
  have err: "?err \<noteq> JNull" "?err \<noteq> JUndefined"
    by simp_all
  have "isAsync ?cfg \<and> (auth ?rt (req (fresh [])) \<noteq> None \<or> allowEmptyCredentials ?cfg)
        \<and> cb_calls (authorizer_result ?rt ?cfg (fresh [])) = (?err, JUndefined) # []"
    by (simp add: authorizer_result_def invoke_authorizer_def test_runtime_def default_config_def)
  with authorizer_fault [OF err, of ?rt ?cfg JUndefined "fresh []" "[]"]
  have "authMiddleware ?rt ?cfg (fresh []) = (Some (IfError ?err), called ?rt ?cfg (fresh []))
          \<and> res_calls (called ?rt ?cfg (fresh [])) = res_calls (fresh [])
          \<and> next_calls (called ?rt ?cfg (fresh [])) = next_calls (fresh [])"
    by blast
  then show ?thesis
    by (simp add: fresh_def)
qed

lemma safeCompare_not_string:
  "\<not> is_string a \<or> \<not> is_string b \<Longrightarrow> safeCompare a b = Inl TypeError"
  by (cases a; cases b) (simp_all add: is_string_def)

lemma staticUsersAuthorizer_not_string:
  assumes "\<not> is_string (arg args 0)"
  shows "staticUsersAuthorizer (JObject (entry # entries)) args = Inl TypeError"
  using assms
  by (simp add: staticUsersAuthorizer_def safeCompare_not_string del: safeCompare.simps)

text \<open>
  Claim C10. \<open>safeCompare\<close> throws a TypeError as soon as one of its arguments is not
  a string, \<open>null\<close> in particular. So for a middleware built with no authorizer, with a
  users mapping that has at least one entry and with \<open>allowEmptyCredentials\<close> set, a
  request on which the parser finds no credentials ends with a TypeError, whatever
  \<open>authorizeAsync\<close> and \<open>passRequest\<close> are: no call has been made on the response,
  so no 401 has been produced, and \<open>next\<close> has not been called.
\<close>

theorem null_credentials_throw:
  "(\<not> is_string a \<or> \<not> is_string b \<longrightarrow> safeCompare a b = Inl TypeError)
   \<and> (buildMiddleware options = Inr cfg
        \<and> \<not> truthy (opt_authorizer options)
        \<and> opt_users options = JObject (entry # entries)
        \<and> truthy (opt_allowEmptyCredentials options)
        \<and> auth rt (req s) = None \<longrightarrow>
          authMiddleware rt cfg s = (Some TypeError, called rt cfg s)
          \<and> res_calls (called rt cfg s) = res_calls s
          \<and> next_calls (called rt cfg s) = next_calls s)"
proof -
  have "authMiddleware rt cfg s = (Some TypeError, called rt cfg s)"
    if built: "buildMiddleware options = Inr cfg" and "\<not> truthy (opt_authorizer options)"
      "opt_users options = JObject (entry # entries)" "truthy (opt_allowEmptyCredentials options)"
      and none: "auth rt (req s) = None"
  proof -
    from that have cfg: "authorizer cfg = StaticUsersAuthorizer"
      "users cfg = JObject (entry # entries)" "allowEmptyCredentials cfg"
      by (simp_all add: buildMiddleware_fields [OF built])
    let ?args = "authorizer_args cfg (attach_auth JNull JNull s) JNull JNull"
    have "\<not> is_string (arg ?args 0)"
      by (simp add: authorizer_args_def arg_def is_string_def)
    then have "staticUsersAuthorizer (JObject (entry # entries)) ?args = Inl TypeError"
      by (rule staticUsersAuthorizer_not_string)
    then have r: "authorizer_result rt cfg s = \<lparr> cb_calls = [], completion = Inl TypeError \<rparr>"
      by (simp add: authorizer_result_def invoke_authorizer_def cfg none credentials_def)
    show ?thesis
      using cfg(3) by (simp add: authMiddleware_called r)
  qed
  then show ?thesis
    by (simp add: safeCompare_not_string called_fields del: safeCompare.simps)
qed

theorem null_credentials_throw_witness:
  "safeCompare JNull (JStr (js ''Admin'')) = Inl TypeError
   \<and> buildMiddleware (no_options\<lparr>opt_users := JObject [(js ''Admin'', JStr (js ''secret1234''))],
                                opt_allowEmptyCredentials := JBool True\<rparr>)
     = Inr (default_config\<lparr>users := JObject [(js ''Admin'', JStr (js ''secret1234''))],
                            allowEmptyCredentials := True\<rparr>)
   \<and> fst (authMiddleware (test_runtime None)
        (default_config\<lparr>users := JObject [(js ''Admin'', JStr (js ''secret1234''))],
                         allowEmptyCredentials := True\<rparr>) (fresh []))
     = Some TypeError
   \<and> res_calls (snd (authMiddleware (test_runtime None)
        (default_config\<lparr>users := JObject [(js ''Admin'', JStr (js ''secret1234''))],
                         allowEmptyCredentials := True\<rparr>) (fresh [])))
     = []"
proof -
  let ?options = "no_options\<lparr>opt_users := JObject [(js ''Admin'', JStr (js ''secret1234''))],
                                opt_allowEmptyCredentials := JBool True\<rparr>"
  let ?cfg = "default_config\<lparr>users := JObject [(js ''Admin'', JStr (js ''secret1234''))],
                            allowEmptyCredentials := True\<rparr>"
  have built: "buildMiddleware ?options = Inr ?cfg"
    by (simp add: buildMiddleware_def no_options_def default_config_def)
  have "\<not> is_string JNull \<or> \<not> is_string (JStr (js ''Admin''))"
    by (simp add: is_string_def)
  with null_credentials_throw [of JNull "JStr (js ''Admin'')"]
  have cmp: "safeCompare JNull (JStr (js ''Admin'')) = Inl TypeError"
    by blast
  have "buildMiddleware ?options = Inr ?cfg
        \<and> \<not> truthy (opt_authorizer ?options)
        \<and> opt_users ?options = JObject ((js ''Admin'', JStr (js ''secret1234'')) # [])
        \<and> truthy (opt_allowEmptyCredentials ?options)
        \<and> auth (test_runtime None) (req (fresh [])) = None"
    using built by (simp add: no_options_def test_runtime_def)
  with null_credentials_throw [of _ _ ?options ?cfg "(js ''Admin'', JStr (js ''secret1234''))" "[]"
      "test_runtime None" "fresh []"]
  have "authMiddleware (test_runtime None) ?cfg (fresh [])
          = (Some TypeError, called (test_runtime None) ?cfg (fresh []))
        \<and> res_calls (called (test_runtime None) ?cfg (fresh [])) = res_calls (fresh [])"
    by blast
  with built cmp show ?thesis
    by (simp add: fresh_def)
qed


lemma map_of_set_prop: "map_of (set_prop ps k v) k = Some v"
  by (induction ps) auto

lemma verdict_next_calls:
  assumes "auth rt (req s) \<noteq> None \<or> allowEmptyCredentials cfg"
    and "callback_contract (isAsync cfg) (authorizer_result rt cfg s)"
  shows "next_calls (snd (authMiddleware rt cfg s))
     = next_calls s
       + (if authorizer_verdict (isAsync cfg) (authorizer_result rt cfg s) = Allow then 1 else 0)"
    and "res_calls (snd (authMiddleware rt cfg s))
     = (if authorizer_verdict (isAsync cfg) (authorizer_result rt cfg s) = Deny
        then res_calls (unauthorized rt cfg (called rt cfg s)) else res_calls s)"
  by (simp_all add: authMiddleware_verdict [OF assms] call_next_fields called_fields
      unauthorized_rest split: decision.splits)

text \<open>
  Claim C4. On a request for which the parser yields no credentials: when
  \<open>allowEmptyCredentials\<close> is false, the middleware is exactly \<open>unauthorized\<close>, which
  sets the status 401, and the authorizer is not called, nor is \<open>next\<close>; when it is
  true, the request gets \<open>auth = {user: null, password: null}\<close>, the authorizer is
  called once, with \<open>null, null\<close> (after the request when \<open>passRequest\<close> is set), and,
  for an authorizer that keeps the callback contract, \<open>next\<close> is called once when the
  authorizer approves and not at all otherwise, and the response is touched only when
  the authorizer denies, by \<open>unauthorized\<close>.
\<close>

theorem missing_credentials:
  assumes "auth rt (req s) = None"
  shows "(\<not> allowEmptyCredentials cfg \<longrightarrow>
            authMiddleware rt cfg s = (None, unauthorized rt cfg s)
            \<and> authorizer_calls (unauthorized rt cfg s) = authorizer_calls s
            \<and> next_calls (unauthorized rt cfg s) = next_calls s
            \<and> res_calls (unauthorized rt cfg s)
                = res_calls s
                  @ (if challenge cfg
                     then [Set (js ''WWW-Authenticate'')
                               (challengeString rt (apply_producer rt (realm cfg) (req s)))]
                     else [])
                  @ [Status 401, body_call (apply_producer rt (getResponseBody cfg) (req s))])
    \<and> (allowEmptyCredentials cfg \<longrightarrow>
          get_prop (JObject (req (snd (authMiddleware rt cfg s)))) (js ''auth'')
            = JObject [(js ''user'', JNull), (js ''password'', JNull)]
          \<and> authorizer_calls (snd (authMiddleware rt cfg s))
              = authorizer_calls s
                @ [(if passRequest cfg
                    then [JObject (req (snd (authMiddleware rt cfg s))), JNull, JNull]
                    else [JNull, JNull], isAsync cfg)]
          \<and> authorizer_result rt cfg s
              = invoke_authorizer rt cfg
                  (if passRequest cfg
                   then [JObject (req (snd (authMiddleware rt cfg s))), JNull, JNull]
                   else [JNull, JNull]) (isAsync cfg)
          \<and> (callback_contract (isAsync cfg) (authorizer_result rt cfg s) \<longrightarrow>
                next_calls (snd (authMiddleware rt cfg s))
                  = next_calls s
                    + (if authorizer_verdict (isAsync cfg) (authorizer_result rt cfg s) = Allow
                       then 1 else 0)
                \<and> res_calls (snd (authMiddleware rt cfg s))
                  = (if authorizer_verdict (isAsync cfg) (authorizer_result rt cfg s) = Deny
                     then res_calls (unauthorized rt cfg (called rt cfg s)) else res_calls s)))"
proof -
  have early: "authMiddleware rt cfg s = (None, unauthorized rt cfg s)"
    if "\<not> allowEmptyCredentials cfg"
    using assms that by (rule authMiddleware_early)
  have creds: "credentials (auth rt (req s)) = (JNull, JNull)"
    using assms by (simp add: credentials_def)
  have attached: "get_prop (JObject (req (snd (authMiddleware rt cfg s)))) (js ''auth'')
            = JObject [(js ''user'', JNull), (js ''password'', JNull)]"
    and calls: "authorizer_calls (snd (authMiddleware rt cfg s))
              = authorizer_calls s
                @ [(if passRequest cfg
                    then [JObject (req (snd (authMiddleware rt cfg s))), JNull, JNull]
                    else [JNull, JNull], isAsync cfg)]"
    if "allowEmptyCredentials cfg"
    using that by (simp_all add: authMiddleware_keeps called_fields creds map_of_set_prop)
  have invoked: "authorizer_result rt cfg s
              = invoke_authorizer rt cfg
                  (if passRequest cfg
                   then [JObject (req (snd (authMiddleware rt cfg s))), JNull, JNull]
                   else [JNull, JNull]) (isAsync cfg)"
    if "allowEmptyCredentials cfg"
    using that
    by (simp add: authorizer_result_def authorizer_args_def attach_auth_def creds
        authMiddleware_keeps called_fields)
  show ?thesis
    using early attached calls invoked verdict_next_calls [of rt s cfg]
    by (simp add: unauthorized_rest unauthorized_calls)
qed

text \<open>
  Claim C8. Take any request and any configuration, synchronous or asynchronous,
  request-aware or not, with an authorizer that keeps the contract of the specification
  when it is called: an asynchronous one invokes the completion callback exactly once.
  Then \<open>next\<close> is called exactly once more when the decision is Allow, and not at all
  otherwise, so never when it is Deny; on Allow no call is made on the response, on Deny
  the calls of \<open>unauthorized\<close> are made.
\<close>

theorem next_exactly_once:
  assumes "auth rt (req s) \<noteq> None \<or> allowEmptyCredentials cfg \<longrightarrow>
           callback_contract (isAsync cfg) (authorizer_result rt cfg s)"
  shows "next_calls (snd (authMiddleware rt cfg s))
     = next_calls s + (if spec_decision rt cfg s = Allow then 1 else 0)
    \<and> (spec_decision rt cfg s = Allow \<longrightarrow>
          res_calls (snd (authMiddleware rt cfg s)) = res_calls s)
    \<and> (spec_decision rt cfg s = Deny \<longrightarrow>
          res_calls (snd (authMiddleware rt cfg s))
            = res_calls (unauthorized rt cfg
                (if auth rt (req s) = None \<and> \<not> allowEmptyCredentials cfg then s
                 else called rt cfg s)))"
proof (cases "auth rt (req s) = None \<and> \<not> allowEmptyCredentials cfg")
  case True
  then have "authMiddleware rt cfg s = (None, unauthorized rt cfg s)"
    by (simp add: authMiddleware_early)
  with True show ?thesis
    by (auto simp add: spec_decision_def unauthorized_rest)
next
  case False
  then have go: "auth rt (req s) \<noteq> None \<or> allowEmptyCredentials cfg"
    by auto
  with assms have contract: "callback_contract (isAsync cfg) (authorizer_result rt cfg s)"
    by (rule mp)
  have "res_calls (called rt cfg s) = res_calls s"
    by (simp add: called_fields)
  with False verdict_next_calls [OF go contract] show ?thesis
    by (auto simp add: spec_decision_def)
qed


lemma test_verdicts:
  "authorizer_verdict False (authorizer_result (test_runtime None)
      (default_config\<lparr>authorizer := Supplied (JFunction 0), allowEmptyCredentials := True\<rparr>)
      (fresh [])) = Allow"
  "authorizer_verdict True (authorizer_result (test_runtime None)
      (default_config\<lparr>authorizer := Supplied (JFunction 1), isAsync := True,
                       allowEmptyCredentials := True\<rparr>)
      (fresh [])) = Allow"
  "authorizer_verdict False (authorizer_result (test_runtime (Some (js ''Admin'', js ''secret'')))
      (default_config\<lparr>authorizer := Supplied (JFunction 0), allowEmptyCredentials := True\<rparr>)
      (fresh [])) = Deny"
  by (simp_all add: authorizer_verdict_def authorizer_result_def invoke_authorizer_def
      test_runtime_def default_config_def credentials_def authorizer_args_def emptyCredentials_def
      arg_def)

lemma test_contracts:
  "callback_contract False r"
  "callback_contract True (authorizer_result (test_runtime None)
      (default_config\<lparr>authorizer := Supplied (JFunction 1), isAsync := True,
                       allowEmptyCredentials := True\<rparr>)
      (fresh []))"
  by (simp_all add: callback_contract_def authorizer_result_def invoke_authorizer_def
      test_runtime_def default_config_def Let_def)

theorem missing_credentials_witness:
  "authMiddleware (test_runtime None) default_config (fresh [])
     = (None, unauthorized (test_runtime None) default_config (fresh []))
   \<and> authorizer_calls (unauthorized (test_runtime None) default_config (fresh [])) = []
   \<and> res_calls (unauthorized (test_runtime None) default_config (fresh [])) = [Status 401, Send []]
   \<and> get_prop (JObject (req (snd (authMiddleware (test_runtime None)
        (default_config\<lparr>authorizer := Supplied (JFunction 0), allowEmptyCredentials := True\<rparr>)
        (fresh []))))) (js ''auth'')
     = JObject [(js ''user'', JNull), (js ''password'', JNull)]
   \<and> authorizer_calls (snd (authMiddleware (test_runtime None)
        (default_config\<lparr>authorizer := Supplied (JFunction 0), allowEmptyCredentials := True\<rparr>)
        (fresh [])))
     = [([JNull, JNull], False)]
   \<and> next_calls (snd (authMiddleware (test_runtime None)
        (default_config\<lparr>authorizer := Supplied (JFunction 0), allowEmptyCredentials := True\<rparr>)
        (fresh [])))
     = 1
   \<and> res_calls (snd (authMiddleware (test_runtime None)
        (default_config\<lparr>authorizer := Supplied (JFunction 0), allowEmptyCredentials := True\<rparr>)
        (fresh [])))
     = []"
proof -
  let ?rt = "test_runtime None"
  let ?cfg = "default_config\<lparr>authorizer := Supplied (JFunction 0), allowEmptyCredentials := True\<rparr>"
  have none: "auth ?rt (req (fresh [])) = None"
    by (simp add: test_runtime_def)
  have off: "\<not> allowEmptyCredentials default_config" "\<not> challenge default_config"
    "apply_producer ?rt (getResponseBody default_config) (req (fresh [])) = JStr []"
    and on: "allowEmptyCredentials ?cfg" "\<not> passRequest ?cfg" "\<not> isAsync ?cfg"
    by (simp_all add: default_config_def apply_producer_def)
  show ?thesis
    using missing_credentials [OF none, of default_config] off
      missing_credentials [OF none, of ?cfg] on test_verdicts(1) test_contracts(1)
    by (simp add: fresh_def)
qed

theorem next_exactly_once_witness:
  "next_calls (snd (authMiddleware (test_runtime None)
        (default_config\<lparr>authorizer := Supplied (JFunction 0), allowEmptyCredentials := True\<rparr>)
        (fresh [])))
     = 1
   \<and> next_calls (snd (authMiddleware (test_runtime None)
        (default_config\<lparr>authorizer := Supplied (JFunction 1), isAsync := True,
                         allowEmptyCredentials := True\<rparr>)
        (fresh [])))
     = 1
   \<and> next_calls (snd (authMiddleware (test_runtime (Some (js ''Admin'', js ''secret'')))
        (default_config\<lparr>authorizer := Supplied (JFunction 0), allowEmptyCredentials := True\<rparr>)
        (fresh [])))
     = 0
   \<and> next_calls (snd (authMiddleware (test_runtime None) default_config (fresh []))) = 0"
proof -
  let ?sync = "default_config\<lparr>authorizer := Supplied (JFunction 0), allowEmptyCredentials := True\<rparr>"
  let ?async = "default_config\<lparr>authorizer := Supplied (JFunction 1), isAsync := True,
                         allowEmptyCredentials := True\<rparr>"
  let ?header = "test_runtime (Some (js ''Admin'', js ''secret''))"
  have flags: "\<not> isAsync ?sync" "isAsync ?async" "allowEmptyCredentials ?sync"
    "allowEmptyCredentials ?async" "\<not> isAsync default_config"
    "\<not> allowEmptyCredentials default_config"
    by (simp_all add: default_config_def)
  have none: "auth (test_runtime None) (req (fresh [])) = None"
    by (simp add: test_runtime_def)
  have c1: "auth (test_runtime None) (req (fresh [])) \<noteq> None \<or> allowEmptyCredentials ?sync \<longrightarrow>
           callback_contract (isAsync ?sync) (authorizer_result (test_runtime None) ?sync (fresh []))"
    and c2: "auth (test_runtime None) (req (fresh [])) \<noteq> None \<or> allowEmptyCredentials ?async \<longrightarrow>
           callback_contract (isAsync ?async) (authorizer_result (test_runtime None) ?async (fresh []))"
    and c3: "auth ?header (req (fresh [])) \<noteq> None \<or> allowEmptyCredentials ?sync \<longrightarrow>
           callback_contract (isAsync ?sync) (authorizer_result ?header ?sync (fresh []))"
    and c4: "auth (test_runtime None) (req (fresh [])) \<noteq> None \<or> allowEmptyCredentials default_config \<longrightarrow>
           callback_contract (isAsync default_config)
             (authorizer_result (test_runtime None) default_config (fresh []))"
    using test_contracts flags by simp_all
  have d: "spec_decision (test_runtime None) ?sync (fresh []) = Allow"
    "spec_decision (test_runtime None) ?async (fresh []) = Allow"
    "spec_decision ?header ?sync (fresh []) = Deny"
    "spec_decision (test_runtime None) default_config (fresh []) = Deny"
    using test_verdicts flags none by (simp_all add: spec_decision_def)
  show ?thesis
    using next_exactly_once [OF c1] next_exactly_once [OF c2] next_exactly_once [OF c3]
      next_exactly_once [OF c4] d
    by (simp add: fresh_def)
qed

text \<open>
  The contract is needed: an asynchronous authorizer that calls back twice with an
  approval makes the middleware call \<open>next\<close> twice.
\<close>

lemma next_twice_without_contract:
  assumes "isAsync cfg" and "auth rt (req s) \<noteq> None \<or> allowEmptyCredentials cfg"
    and "cb_calls (authorizer_result rt cfg s) = [(JNull, JBool True), (JNull, JBool True)]"
  shows "next_calls (snd (authMiddleware rt cfg s)) = next_calls s + 2"
  using assms(1,3)
  by (simp add: authMiddleware_called [OF assms(2)] authorizerCallback_def call_next_fields
      called_fields split: sum.splits)

text \<open>An error argument that is \<open>undefined\<close> counts as no error, like \<open>null\<close>.\<close>

lemma undefined_error_is_none:
  "authorizerCallback rt cfg JUndefined approved s = authorizerCallback rt cfg JNull approved s"
  by (simp add: authorizerCallback_def)

end
